theory Spec2Isabelle
  imports Complex_Main "HOL-Library.AList"
begin

section \<open>Data model of the billing module (convex/schema.ts)\<close>

text \<open>
  Documents live in tables. A table is the list of its documents in creation order and a
  document's \<open>_id\<close> is its position in that list: no handler of the module deletes a document,
  so a position names the same document for ever. Credits, quantities and every other
  \<open>v.number()\<close> of the ledger are JavaScript numbers, that is IEEE 754 double-precision
  values, with the arithmetic of the language. \<open>Date.now()\<close> is the argument \<open>now\<close> of every
  handler, an integer count of milliseconds; timestamps and the trial length in days are
  integers.

  A handler is a function from the database to a result and the database as the handler's
  own writes have left it, also when the handler throws: the first component is \<open>Inl\<close> of the
  error thrown or \<open>Inr\<close> of the value returned. A mutation runs its handler as one
  transaction: when the handler throws, none of its writes is committed (\<open>mutation\<close> below).
\<close>

type_synonym doc_id = nat

subsection \<open>JavaScript numbers\<close>

text \<open>A number is NaN, an infinity, negative zero, or \<open>Fin r\<close> for a finite value \<open>r\<close> other
  than negative zero (\<open>Fin 0\<close> is positive zero). The results of the operations are doubles
  when their arguments are.\<close>

datatype js_number = NaN | PosInf | NegInf | NegZero | Fin rat

definition pow2 :: "int \<Rightarrow> rat" where
  "pow2 k = (if 0 \<le> k then 2 ^ nat k else 1 / 2 ^ nat (- k))"

text \<open>The binary exponent of a positive integer and of a non-zero rational:
  \<open>2 ^ ilog2 r \<le> \<bar>r\<bar> < 2 ^ (ilog2 r + 1)\<close>.\<close>

fun ilog2_nat :: "nat \<Rightarrow> nat" where
  "ilog2_nat n = (if n < 2 then 0 else Suc (ilog2_nat (n div 2)))"

declare ilog2_nat.simps [simp del]

definition ilog2 :: "rat \<Rightarrow> int" where
  "ilog2 r =
     (let (a, b) = quotient_of \<bar>r\<bar>;
          d = int (ilog2_nat (nat a)) - int (ilog2_nat (nat b))
      in if pow2 d \<le> \<bar>r\<bar> then d else d - 1)"

text \<open>Rounding to the nearest integer, ties to the even one.\<close>

definition round_even :: "rat \<Rightarrow> int" where
  "round_even x =
     (let f = \<lfloor>x\<rfloor>; frac = x - of_int f
      in if frac < 1 / 2 then f
         else if 1 / 2 < frac then f + 1
         else if even f then f else f + 1)"

text \<open>Rounding of a non-zero real to a double: 53 significant bits, to nearest, ties to even;
  below \<open>2 ^ -1022\<close> the spacing stays \<open>2 ^ -1074\<close>; a result of magnitude \<open>2 ^ 1024\<close> or more
  is an infinity.\<close>

definition round_double :: "rat \<Rightarrow> js_number" where
  "round_double r =
     (let e = ilog2 r;
          q = max e (- 1022) - 52;
          m = round_even (r / pow2 q);
          v = of_int m * pow2 q
      in if m = 0 then (if r < 0 then NegZero else Fin 0)
         else if 2 ^ 1024 \<le> \<bar>v\<bar> then (if r < 0 then NegInf else PosInf)
         else Fin v)"

text \<open>Unary minus, \<open>+\<close>, \<open>-\<close>, \<open><\<close>, \<open>Math.min\<close> and truthiness.\<close>

fun js_neg :: "js_number \<Rightarrow> js_number" where
  "js_neg NaN = NaN"
| "js_neg PosInf = NegInf"
| "js_neg NegInf = PosInf"
| "js_neg NegZero = Fin 0"
| "js_neg (Fin r) = (if r = 0 then NegZero else Fin (- r))"

fun js_add :: "js_number \<Rightarrow> js_number \<Rightarrow> js_number" where
  "js_add NaN y = NaN"
| "js_add x NaN = NaN"
| "js_add PosInf NegInf = NaN"
| "js_add NegInf PosInf = NaN"
| "js_add PosInf y = PosInf"
| "js_add x PosInf = PosInf"
| "js_add NegInf y = NegInf"
| "js_add x NegInf = NegInf"
| "js_add NegZero y = y"
| "js_add x NegZero = x"
| "js_add (Fin a) (Fin b) = (if a + b = 0 then Fin 0 else round_double (a + b))"

definition js_sub :: "js_number \<Rightarrow> js_number \<Rightarrow> js_number" where
  "js_sub x y = js_add x (js_neg y)"

fun js_lt :: "js_number \<Rightarrow> js_number \<Rightarrow> bool" where
  "js_lt NaN y = False"
| "js_lt x NaN = False"
| "js_lt PosInf y = False"
| "js_lt x PosInf = True"
| "js_lt x NegInf = False"
| "js_lt NegInf y = True"
| "js_lt NegZero NegZero = False"
| "js_lt NegZero (Fin b) = (0 < b)"
| "js_lt (Fin a) NegZero = (a < 0)"
| "js_lt (Fin a) (Fin b) = (a < b)"

definition js_min :: "js_number \<Rightarrow> js_number \<Rightarrow> js_number" where
  "js_min x y =
     (if x = NaN \<or> y = NaN then NaN
      else if js_lt x y then x
      else if js_lt y x then y
      else if x = NegZero \<or> y = NegZero then NegZero
      else x)"

definition js_truthy :: "js_number \<Rightarrow> bool" where
  "js_truthy x = (x \<noteq> NaN \<and> x \<noteq> NegZero \<and> x \<noteq> Fin 0)"

datatype error = Error string | TypeError string

fun String_of_error :: "error \<Rightarrow> string" where
  "String_of_error (Error msg) = ''Error: '' @ msg"
| "String_of_error (TypeError msg) = ''TypeError: '' @ msg"

datatype sub_status = Active | Cancelled | PastDue | Trialing | Paused

datatype billing_period = Monthly | Yearly

datatype tx_type = Purchase | MonthlyAllocation | Bonus | Refund | UsageDeduction | Rollover

datatype resource_type = LlmTokens | ApiCall | Storage | Deployment | DataSourceQuery

text \<open>Values of \<open>v.any()\<close> (the metadata fields); an object is its list of properties.\<close>

datatype jsval =
    JNull
  | JBool bool
  | JNum js_number
  | JStr string
  | JArr "jsval list"
  | JObj "(string \<times> jsval) list"

record subscriptionPlan =
  displayName :: string
  monthlyCredits :: js_number
  rolloverCredits :: bool
  maxRolloverCredits :: "js_number option"

record subscription =
  sub_memberId :: doc_id
  planId :: doc_id
  status :: sub_status
  billingPeriod :: billing_period
  currentPeriodStart :: int
  currentPeriodEnd :: int
  cancelAtPeriodEnd :: bool
  stripeSubscriptionId :: "string option"
  stripeCustomerId :: "string option"
  trialStart :: "int option"
  trialEnd :: "int option"
  sub_createdAt :: int
  sub_updatedAt :: int

record creditBalance =
  cb_memberId :: doc_id
  balance :: js_number
  lifetimeEarned :: js_number
  lifetimeSpent :: js_number
  lastResetAt :: int
  cb_updatedAt :: int

record creditTransaction =
  tx_memberId :: doc_id
  tx_amount :: js_number
  balanceAfter :: js_number
  tx_type :: tx_type
  tx_description :: string
  tx_subscriptionId :: "doc_id option"
  tx_chatId :: "doc_id option"
  tx_usageRecordId :: "doc_id option"
  tx_metadata :: "jsval option"
  tx_createdAt :: int

record usageRecord =
  ur_memberId :: doc_id
  ur_chatId :: "doc_id option"
  resourceType :: resource_type
  quantity :: js_number
  creditCost :: js_number
  modelId :: "string option"
  promptTokens :: "js_number option"
  completionTokens :: "js_number option"
  cachedPromptTokens :: "js_number option"
  apiIntegrationId :: "doc_id option"
  ur_metadata :: "jsval option"
  timestamp :: int

record db =
  subscriptionPlans :: "subscriptionPlan list"
  subscriptions :: "subscription list"
  creditBalances :: "creditBalance list"
  creditTransactions :: "creditTransaction list"
  usageRecords :: "usageRecord list"
  scheduled :: "(doc_id \<times> doc_id) list"

definition empty_db :: db where
  "empty_db = \<lparr>subscriptionPlans = [], subscriptions = [], creditBalances = [],
     creditTransactions = [], usageRecords = [], scheduled = []\<rparr>"

subsection \<open>The database operations the handlers use\<close>

definition db_get :: "'a list \<Rightarrow> doc_id \<Rightarrow> 'a option" where
  "db_get tbl i = (if i < length tbl then Some (tbl ! i) else None)"

definition db_insert :: "'a list \<Rightarrow> 'a \<Rightarrow> doc_id \<times> 'a list" where
  "db_insert tbl row = (length tbl, tbl @ [row])"

text \<open>\<open>ctx.db.patch\<close> throws when the document does not exist.\<close>

definition db_patch :: "'a list \<Rightarrow> doc_id \<Rightarrow> ('a \<Rightarrow> 'a) \<Rightarrow> error + 'a list" where
  "db_patch tbl i f =
     (if i < length tbl then Inr (tbl[i := f (tbl ! i)])
      else Inl (Error ''Update on nonexistent document ID''))"

text \<open>\<open>.collect()\<close> and \<open>.first()\<close> of an index query: the matching documents, oldest first,
  each with its \<open>_id\<close>.\<close>

definition query_collect :: "('a \<Rightarrow> bool) \<Rightarrow> 'a list \<Rightarrow> (doc_id \<times> 'a) list" where
  "query_collect P tbl = filter (\<lambda>(i, r). P r) (enumerate 0 tbl)"

definition query_first :: "('a \<Rightarrow> bool) \<Rightarrow> 'a list \<Rightarrow> (doc_id \<times> 'a) option" where
  "query_first P tbl = List.find (\<lambda>(i, r). P r) (enumerate 0 tbl)"

text \<open>A mutation, and \<open>ctx.runMutation\<close> inside one, runs the handler as a transaction: the
  writes of a handler that throws are discarded and the error goes on to the caller.\<close>

definition mutation :: "(db \<Rightarrow> (error + 'a) \<times> db) \<Rightarrow> db \<Rightarrow> (error + 'a) \<times> db" where
  "mutation handler d =
     (case handler d of
        (Inl e, d1) \<Rightarrow> (Inl e, d)
      | (Inr r, d1) \<Rightarrow> (Inr r, d1))"

section \<open>Credit management\<close>

text \<open>\<open>getCreditBalance\<close>: the member's balance document, or zeros when there is none.\<close>

definition getCreditBalance ::
  "doc_id \<Rightarrow> db \<Rightarrow> js_number \<times> js_number \<times> js_number" where
  "getCreditBalance memberId d =
     (case query_first (\<lambda>b. cb_memberId b = memberId) (creditBalances d) of
        None \<Rightarrow> (Fin 0, Fin 0, Fin 0)
      | Some (i, b) \<Rightarrow> (balance b, lifetimeEarned b, lifetimeSpent b))"

text \<open>\<open>addCredits\<close>. The first block is the get-or-create of the balance document, which ends
  by reading the document back; \<open>(await ctx.db.get(id))!\<close> on a missing document makes the
  next property access throw a TypeError. The handler's \<open>type\<close> argument is one of purchase,
  monthly_allocation, bonus and refund; it is stored as given and nothing branches on it.\<close>

definition get_or_create_balance ::
  "doc_id \<Rightarrow> js_number \<Rightarrow> int \<Rightarrow> db \<Rightarrow> (error + creditBalance) \<times> db" where
  "get_or_create_balance memberId amount now d =
     (case query_first (\<lambda>b. cb_memberId b = memberId) (creditBalances d) of
        None \<Rightarrow>
          (let (balanceId, tbl) = db_insert (creditBalances d)
                 \<lparr>cb_memberId = memberId, balance = amount, lifetimeEarned = amount,
                  lifetimeSpent = Fin 0, lastResetAt = now, cb_updatedAt = now\<rparr>;
               d1 = d\<lparr>creditBalances := tbl\<rparr>
           in (case db_get (creditBalances d1) balanceId of
                 None \<Rightarrow> (Inl (TypeError ''Cannot read properties of null''), d1)
               | Some b \<Rightarrow> (Inr b, d1)))
      | Some (bid, b0) \<Rightarrow>
          (case db_patch (creditBalances d) bid
                  (\<lambda>b. b\<lparr>balance := js_add (balance b0) amount,
                          lifetimeEarned := js_add (lifetimeEarned b0) amount,
                          cb_updatedAt := now\<rparr>) of
             Inl e \<Rightarrow> (Inl e, d)
           | Inr tbl \<Rightarrow>
               (let d1 = d\<lparr>creditBalances := tbl\<rparr>
                in (case db_get (creditBalances d1) bid of
                      None \<Rightarrow> (Inl (TypeError ''Cannot read properties of null''), d1)
                    | Some b \<Rightarrow> (Inr b, d1)))))"

definition addCredits ::
  "doc_id \<Rightarrow> js_number \<Rightarrow> tx_type \<Rightarrow> string \<Rightarrow> doc_id option \<Rightarrow> jsval option \<Rightarrow> int
   \<Rightarrow> db \<Rightarrow> (error + js_number) \<times> db" where
  "addCredits memberId amount type description subscriptionId metadata now d =
     (case get_or_create_balance memberId amount now d of
        (Inl e, d1) \<Rightarrow> (Inl e, d1)
      | (Inr b, d1) \<Rightarrow>
          (let (txId, txs) = db_insert (creditTransactions d1)
                 \<lparr>tx_memberId = memberId, tx_amount = amount, balanceAfter = balance b,
                  tx_type = type, tx_description = description,
                  tx_subscriptionId = subscriptionId, tx_chatId = None,
                  tx_usageRecordId = None, tx_metadata = metadata, tx_createdAt = now\<rparr>
           in (Inr (balance b), d1\<lparr>creditTransactions := txs\<rparr>)))"

text \<open>\<open>deductCredits\<close>: the guard throws before anything is written.\<close>

definition deductCredits ::
  "doc_id \<Rightarrow> js_number \<Rightarrow> string \<Rightarrow> doc_id option \<Rightarrow> doc_id option \<Rightarrow> jsval option \<Rightarrow> int
   \<Rightarrow> db \<Rightarrow> (error + js_number) \<times> db" where
  "deductCredits memberId amount description chatId usageRecordId metadata now d =
     (case query_first (\<lambda>b. cb_memberId b = memberId) (creditBalances d) of
        None \<Rightarrow> (Inl (Error ''Insufficient credits''), d)
      | Some (bid, b0) \<Rightarrow>
          if js_lt (balance b0) amount then (Inl (Error ''Insufficient credits''), d)
          else
            (let newBalance = js_sub (balance b0) amount
             in (case db_patch (creditBalances d) bid
                        (\<lambda>b. b\<lparr>balance := newBalance,
                                lifetimeSpent := js_add (lifetimeSpent b0) amount,
                                cb_updatedAt := now\<rparr>) of
                   Inl e \<Rightarrow> (Inl e, d)
                 | Inr tbl \<Rightarrow>
                     (let d1 = d\<lparr>creditBalances := tbl\<rparr>;
                          (txId, txs) = db_insert (creditTransactions d1)
                            \<lparr>tx_memberId = memberId, tx_amount = js_neg amount,
                             balanceAfter = newBalance, tx_type = UsageDeduction,
                             tx_description = description, tx_subscriptionId = None,
                             tx_chatId = chatId, tx_usageRecordId = usageRecordId,
                             tx_metadata = metadata, tx_createdAt = now\<rparr>
                      in (Inr newBalance, d1\<lparr>creditTransactions := txs\<rparr>)))))"

text \<open>\<open>allocateMonthlyCredits\<close>. \<open>a || b\<close> on numbers takes \<open>b\<close> when \<open>a\<close> is undefined, zero or
  NaN. The handler calls \<open>addCredits\<close> through \<open>ctx.runMutation\<close>.\<close>

definition js_or :: "js_number option \<Rightarrow> js_number \<Rightarrow> js_number" where
  "js_or a b = (case a of None \<Rightarrow> b | Some x \<Rightarrow> if js_truthy x then x else b)"

definition creditsToAdd ::
  "subscriptionPlan \<Rightarrow> (doc_id \<times> creditBalance) option \<Rightarrow> js_number" where
  "creditsToAdd plan bal =
     (case bal of
        None \<Rightarrow> monthlyCredits plan
      | Some (bid, b) \<Rightarrow>
          if rolloverCredits plan \<and> js_lt (Fin 0) (balance b) then
            (let maxRollover = js_or (maxRolloverCredits plan) (monthlyCredits plan);
                 rolloverAmount = js_min (balance b) maxRollover
             in js_add (monthlyCredits plan) rolloverAmount)
          else monthlyCredits plan)"

definition allocateMonthlyCredits :: "doc_id \<Rightarrow> doc_id \<Rightarrow> int \<Rightarrow> db \<Rightarrow> (error + unit) \<times> db" where
  "allocateMonthlyCredits memberId subscriptionId now d =
     (case db_get (subscriptions d) subscriptionId of
        None \<Rightarrow> (Inr (), d)
      | Some sub \<Rightarrow>
          (case db_get (subscriptionPlans d) (planId sub) of
             None \<Rightarrow> (Inr (), d)
           | Some plan \<Rightarrow>
               (let bal = query_first (\<lambda>b. cb_memberId b = memberId) (creditBalances d)
                in (case mutation (addCredits memberId (creditsToAdd plan bal) MonthlyAllocation
                             (''Monthly credit allocation for '' @ displayName plan @ '' plan'')
                             (Some subscriptionId) None now) d of
                      (Inl e, d1) \<Rightarrow> (Inl e, d1)
                    | (Inr r, d1) \<Rightarrow> (Inr (), d1)))))"

section \<open>Usage tracking\<close>

fun resource_name :: "resource_type \<Rightarrow> string" where
  "resource_name LlmTokens = ''llm_tokens''"
| "resource_name ApiCall = ''api_call''"
| "resource_name Storage = ''storage''"
| "resource_name Deployment = ''deployment''"
| "resource_name DataSourceQuery = ''data_source_query''"

text \<open>Object spread \<open>{...x}\<close>: the own enumerable properties of \<open>x\<close>; an array or a string
  spreads into its elements under their decimal indices, anything else into nothing.\<close>

fun index_key :: "nat \<Rightarrow> string" where
  "index_key n =
     (if n < 10 then [char_of (48 + n)]
      else index_key (n div 10) @ [char_of (48 + n mod 10)])"

definition spread :: "jsval option \<Rightarrow> (string \<times> jsval) list" where
  "spread x =
     (case x of
        Some (JObj kvs) \<Rightarrow> kvs
      | Some (JArr xs) \<Rightarrow> map (\<lambda>(i, v). (index_key i, v)) (enumerate 0 xs)
      | Some (JStr s) \<Rightarrow> map (\<lambda>(i, c). (index_key i, JStr [c])) (enumerate 0 s)
      | _ \<Rightarrow> [])"

definition failure_metadata :: "jsval option \<Rightarrow> error \<Rightarrow> jsval" where
  "failure_metadata metadata err =
     JObj (AList.update ''error'' (JStr (String_of_error err))
            (AList.update ''creditDeductionFailed'' (JBool True) (spread metadata)))"

text \<open>The handler of \<open>recordUsage\<close>; \<open>now2\<close> is the clock of the \<open>deductCredits\<close> mutation it
  runs. The handler catches the error of the deduction, patches the usage record and throws
  the error again.\<close>

definition recordUsage_handler ::
  "doc_id \<Rightarrow> doc_id option \<Rightarrow> resource_type \<Rightarrow> js_number \<Rightarrow> js_number \<Rightarrow> string option
   \<Rightarrow> js_number option \<Rightarrow> js_number option \<Rightarrow> js_number option \<Rightarrow> doc_id option
   \<Rightarrow> jsval option \<Rightarrow> int \<Rightarrow> int \<Rightarrow> db \<Rightarrow> (error + doc_id) \<times> db" where
  "recordUsage_handler memberId chatId rtype qty cost model pTokens cTokens cachedTokens
       integrationId metadata now now2 d =
     (let (usageRecordId, urs) = db_insert (usageRecords d)
            \<lparr>ur_memberId = memberId, ur_chatId = chatId, resourceType = rtype,
             quantity = qty, creditCost = cost, modelId = model, promptTokens = pTokens,
             completionTokens = cTokens, cachedPromptTokens = cachedTokens,
             apiIntegrationId = integrationId, ur_metadata = metadata, timestamp = now\<rparr>;
          d1 = d\<lparr>usageRecords := urs\<rparr>
      in (case mutation (deductCredits memberId cost (resource_name rtype @ '' usage'') chatId
                   (Some usageRecordId) metadata now2) d1 of
            (Inr r, d2) \<Rightarrow> (Inr usageRecordId, d2)
          | (Inl err, d2) \<Rightarrow>
              (case db_patch (usageRecords d2) usageRecordId
                      (\<lambda>u. u\<lparr>ur_metadata := Some (failure_metadata metadata err)\<rparr>) of
                 Inl e \<Rightarrow> (Inl e, d2)
               | Inr urs2 \<Rightarrow> (Inl err, d2\<lparr>usageRecords := urs2\<rparr>))))"

text \<open>\<open>recordUsage\<close> is the mutation with that handler.\<close>

definition recordUsage ::
  "doc_id \<Rightarrow> doc_id option \<Rightarrow> resource_type \<Rightarrow> js_number \<Rightarrow> js_number \<Rightarrow> string option
   \<Rightarrow> js_number option \<Rightarrow> js_number option \<Rightarrow> js_number option \<Rightarrow> doc_id option
   \<Rightarrow> jsval option \<Rightarrow> int \<Rightarrow> int \<Rightarrow> db \<Rightarrow> (error + doc_id) \<times> db" where
  "recordUsage memberId chatId rtype qty cost model pTokens cTokens cachedTokens integrationId
       metadata now now2 =
     mutation (recordUsage_handler memberId chatId rtype qty cost model pTokens cTokens
       cachedTokens integrationId metadata now now2)"

section \<open>User subscriptions\<close>

text \<open>The loop of \<open>createSubscription\<close> over the member's active subscriptions.\<close>

fun cancel_existing ::
  "(doc_id \<times> subscription) list \<Rightarrow> int \<Rightarrow> subscription list
   \<Rightarrow> (error + unit) \<times> subscription list" where
  "cancel_existing [] now tbl = (Inr (), tbl)"
| "cancel_existing ((i, sub) # rest) now tbl =
     (case db_patch tbl i (\<lambda>s. s\<lparr>status := Cancelled, sub_updatedAt := now\<rparr>) of
        Inl e \<Rightarrow> (Inl e, tbl)
      | Inr tbl1 \<Rightarrow> cancel_existing rest now tbl1)"

definition truthy_num :: "int option \<Rightarrow> bool" where
  "truthy_num x = (case x of None \<Rightarrow> False | Some n \<Rightarrow> n \<noteq> 0)"

definition createSubscription ::
  "doc_id \<Rightarrow> doc_id \<Rightarrow> billing_period \<Rightarrow> string option \<Rightarrow> string option \<Rightarrow> int option \<Rightarrow> int
   \<Rightarrow> db \<Rightarrow> (error + doc_id) \<times> db" where
  "createSubscription memberId pid period stripeSubId stripeCustId trialDays now d =
     (case db_get (subscriptionPlans d) pid of
        None \<Rightarrow> (Inl (Error ''Plan not found''), d)
      | Some plan \<Rightarrow>
          (let periodEnd = now + (if period = Monthly then 30 else 365) * 24 * 60 * 60 * 1000;
               (tStart, tEnd) =
                 (case trialDays of
                    None \<Rightarrow> (None, None)
                  | Some n \<Rightarrow>
                      if n \<noteq> 0 then (Some now, Some (now + n * 24 * 60 * 60 * 1000))
                      else (None, None));
               existingSubscriptions =
                 query_collect (\<lambda>s. sub_memberId s = memberId \<and> status s = Active)
                   (subscriptions d)
           in (case cancel_existing existingSubscriptions now (subscriptions d) of
                 (Inl e, tbl) \<Rightarrow> (Inl e, d\<lparr>subscriptions := tbl\<rparr>)
               | (Inr u, tbl) \<Rightarrow>
                   (let (subscriptionId, tbl2) = db_insert tbl
                          \<lparr>sub_memberId = memberId, planId = pid,
                           status = (if truthy_num tStart then Trialing else Active),
                           billingPeriod = period, currentPeriodStart = now,
                           currentPeriodEnd = periodEnd, cancelAtPeriodEnd = False,
                           stripeSubscriptionId = stripeSubId,
                           stripeCustomerId = stripeCustId,
                           trialStart = tStart, trialEnd = tEnd,
                           sub_createdAt = now, sub_updatedAt = now\<rparr>
                    in (Inr subscriptionId,
                        d\<lparr>subscriptions := tbl2,
                          scheduled := scheduled d @ [(memberId, subscriptionId)]\<rparr>)))))"

text \<open>\<open>updateSubscriptionStatus\<close>: \<open>args.cancelAtPeriodEnd ?? false\<close>.\<close>

definition updateSubscriptionStatus ::
  "doc_id \<Rightarrow> sub_status \<Rightarrow> bool option \<Rightarrow> int \<Rightarrow> db \<Rightarrow> (error + unit) \<times> db" where
  "updateSubscriptionStatus subscriptionId st cape now d =
     (case db_patch (subscriptions d) subscriptionId
             (\<lambda>s. s\<lparr>status := st,
                     cancelAtPeriodEnd := (case cape of None \<Rightarrow> False | Some c \<Rightarrow> c),
                     sub_updatedAt := now\<rparr>) of
        Inl e \<Rightarrow> (Inl e, d)
      | Inr tbl \<Rightarrow> (Inr (), d\<lparr>subscriptions := tbl\<rparr>))"

definition cancelSubscription :: "doc_id \<Rightarrow> bool \<Rightarrow> int \<Rightarrow> db \<Rightarrow> (error + unit) \<times> db" where
  "cancelSubscription subscriptionId immediate now d =
     (case db_get (subscriptions d) subscriptionId of
        None \<Rightarrow> (Inl (Error ''Subscription not found''), d)
      | Some sub \<Rightarrow>
          (case (if immediate
                 then db_patch (subscriptions d) subscriptionId
                        (\<lambda>s. s\<lparr>status := Cancelled, sub_updatedAt := now\<rparr>)
                 else db_patch (subscriptions d) subscriptionId
                        (\<lambda>s. s\<lparr>cancelAtPeriodEnd := True, sub_updatedAt := now\<rparr>)) of
             Inl e \<Rightarrow> (Inl e, d)
           | Inr tbl \<Rightarrow> (Inr (), d\<lparr>subscriptions := tbl\<rparr>)))"

section \<open>Sequences of ledger operations\<close>

datatype ledger_op =
    OpAdd doc_id js_number tx_type string "doc_id option" "jsval option"
  | OpDeduct doc_id js_number string "doc_id option" "doc_id option" "jsval option"
  | OpAllocate doc_id doc_id

text \<open>An operation runs at a time; the database goes on as the handler has left it.\<close>

fun apply_op :: "int \<times> ledger_op \<Rightarrow> db \<Rightarrow> db" where
  "apply_op (now, OpAdd m a ty descr sid md) d = snd (addCredits m a ty descr sid md now d)"
| "apply_op (now, OpDeduct m a descr cid uid md) d = snd (deductCredits m a descr cid uid md now d)"
| "apply_op (now, OpAllocate m sid) d = snd (allocateMonthlyCredits m sid now d)"

fun run_ops :: "(int \<times> ledger_op) list \<Rightarrow> db \<Rightarrow> db" where
  "run_ops [] d = d"
| "run_ops (x # xs) d = run_ops xs (apply_op x d)"

section \<open>Properties of the ledger\<close>

text \<open>The balance a member sees. The sum of numbers as the language adds them, from the
  first on; the amounts of a member's transactions in creation order, and their sum.\<close>

definition balance_of :: "doc_id \<Rightarrow> db \<Rightarrow> js_number" where
  "balance_of m d = fst (getCreditBalance m d)"

fun js_sum :: "js_number list \<Rightarrow> js_number" where
  "js_sum [] = Fin 0"
| "js_sum (x # xs) = foldl js_add x xs"

definition member_amounts :: "doc_id \<Rightarrow> creditTransaction list \<Rightarrow> js_number list" where
  "member_amounts m txs = map tx_amount (filter (\<lambda>t. tx_memberId t = m) txs)"

definition tx_sum :: "doc_id \<Rightarrow> creditTransaction list \<Rightarrow> js_number" where
  "tx_sum m txs = js_sum (member_amounts m txs)"

text \<open>A member's ledger matches the log: no balance document and no transaction, or a
  balance document whose balance is the sum of the member's transactions, of which there is
  one at least.\<close>

definition ledger_matches :: "doc_id \<Rightarrow> db \<Rightarrow> bool" where
  "ledger_matches m d =
     (case query_first (\<lambda>b. cb_memberId b = m) (creditBalances d) of
        None \<Rightarrow> member_amounts m (creditTransactions d) = []
      | Some (i, b) \<Rightarrow>
          member_amounts m (creditTransactions d) \<noteq> []
          \<and> balance b = tx_sum m (creditTransactions d))"

text \<open>Every transaction's \<open>balanceAfter\<close> is the sum of its member's amounts up to and
  including that transaction.\<close>

definition snapshots_ok :: "creditTransaction list \<Rightarrow> bool" where
  "snapshots_ok txs =
     list_all (\<lambda>k. balanceAfter (txs ! k) = tx_sum (tx_memberId (txs ! k)) (take (Suc k) txs))
       [0..<length txs]"

text \<open>Every balance document has \<open>balance = lifetimeEarned - lifetimeSpent\<close>, the difference
  being the one the language computes.\<close>

definition ledger_consistent :: "db \<Rightarrow> bool" where
  "ledger_consistent d =
     list_all (\<lambda>b. balance b = js_sub (lifetimeEarned b) (lifetimeSpent b)) (creditBalances d)"

text \<open>The integer a number is, when it is one (negative zero is not taken for one). A balance
  document is exact within \<open>K\<close> when its three counters are integers of magnitude at most
  \<open>K\<close> and the balance is earned minus spent.\<close>

definition int_of :: "js_number \<Rightarrow> int option" where
  "int_of x = (case x of Fin r \<Rightarrow> if of_int \<lfloor>r\<rfloor> = r then Some \<lfloor>r\<rfloor> else None | _ \<Rightarrow> None)"

definition doc_exact :: "int \<Rightarrow> creditBalance \<Rightarrow> bool" where
  "doc_exact K b =
     (case (int_of (balance b), int_of (lifetimeEarned b), int_of (lifetimeSpent b)) of
        (Some n, Some e, Some s) \<Rightarrow> n = e - s \<and> \<bar>n\<bar> \<le> K \<and> \<bar>e\<bar> \<le> K \<and> \<bar>s\<bar> \<le> K
      | _ \<Rightarrow> False)"

text \<open>The magnitude of the amount of an \<open>addCredits\<close> or \<open>deductCredits\<close> call with an integer
  amount, and the total over a sequence.\<close>

fun op_magnitude :: "int \<times> ledger_op \<Rightarrow> int option" where
  "op_magnitude (now, OpAdd m a ty descr sid md) = map_option abs (int_of a)"
| "op_magnitude (now, OpDeduct m a descr cid uid md) = map_option abs (int_of a)"
| "op_magnitude (now, OpAllocate m sid) = None"

definition integer_op :: "int \<times> ledger_op \<Rightarrow> bool" where
  "integer_op x = (op_magnitude x \<noteq> None)"

definition total_magnitude :: "(int \<times> ledger_op) list \<Rightarrow> int" where
  "total_magnitude ops =
     sum_list (map (\<lambda>x. case op_magnitude x of None \<Rightarrow> 0 | Some j \<Rightarrow> j) ops)"

text \<open>Numbers that are zero or more (NaN is not), and finite numbers.\<close>

fun js_nonneg :: "js_number \<Rightarrow> bool" where
  "js_nonneg NaN = False"
| "js_nonneg PosInf = True"
| "js_nonneg NegInf = False"
| "js_nonneg NegZero = True"
| "js_nonneg (Fin r) = (0 \<le> r)"

fun js_finite :: "js_number \<Rightarrow> bool" where
  "js_finite NegZero = True"
| "js_finite (Fin r) = True"
| "js_finite x = False"

definition balances_nonneg :: "db \<Rightarrow> bool" where
  "balances_nonneg d = list_all (\<lambda>b. js_nonneg (balance b)) (creditBalances d)"

definition plans_nonneg :: "db \<Rightarrow> bool" where
  "plans_nonneg d =
     list_all (\<lambda>p. js_nonneg (monthlyCredits p) \<and>
                 (case maxRolloverCredits p of None \<Rightarrow> True | Some c \<Rightarrow> js_nonneg c))
       (subscriptionPlans d)"

text \<open>The amounts under which balances stay non-negative: a grant of zero or more, a
  deduction of a finite amount.\<close>

fun op_nonneg :: "int \<times> ledger_op \<Rightarrow> bool" where
  "op_nonneg (now, OpAdd m a ty descr sid md) = js_nonneg a"
| "op_nonneg (now, OpDeduct m a descr cid uid md) = js_finite a"
| "op_nonneg (now, OpAllocate m sid) = True"

section \<open>Sample data\<close>

text \<open>A balance document of member 7, and a database in which member 7 was granted 200
  credits and has spent 50.\<close>

definition sample_balance :: creditBalance where
  "sample_balance = \<lparr>cb_memberId = 7, balance = Fin 150, lifetimeEarned = Fin 200,
     lifetimeSpent = Fin 50, lastResetAt = 0, cb_updatedAt = 0\<rparr>"

definition sample_db :: db where
  "sample_db = empty_db\<lparr>creditBalances := [sample_balance],
     creditTransactions :=
       [\<lparr>tx_memberId = 7, tx_amount = Fin 200, balanceAfter = Fin 200, tx_type = Purchase,
         tx_description = ''credit pack'', tx_subscriptionId = None, tx_chatId = None,
         tx_usageRecordId = None, tx_metadata = None, tx_createdAt = 1\<rparr>,
        \<lparr>tx_memberId = 7, tx_amount = Fin (- 50), balanceAfter = Fin 150,
         tx_type = UsageDeduction, tx_description = ''llm_tokens usage'',
         tx_subscriptionId = None, tx_chatId = None, tx_usageRecordId = None,
         tx_metadata = None, tx_createdAt = 2\<rparr>]\<rparr>"

text \<open>A run: a grant of 100, a deduction of 30 and a deduction of 500 that fails.\<close>

definition sample_ops :: "(int \<times> ledger_op) list" where
  "sample_ops = [(10, OpAdd 7 (Fin 100) Bonus ''welcome'' None None),
     (20, OpDeduct 7 (Fin 30) ''api_call usage'' None None None),
     (30, OpDeduct 7 (Fin 500) ''deployment usage'' None None None)]"

text \<open>Runs that leave the range in which integers are exact: \<open>2 ^ 53\<close> is 9007199254740992.\<close>

definition rounding_ops :: "(int \<times> ledger_op) list" where
  "rounding_ops = [(10, OpAdd 7 (Fin 1) Bonus ''welcome'' None None),
     (20, OpDeduct 7 (Fin 1) ''api_call usage'' None None None),
     (30, OpAdd 7 (Fin 9007199254740992) Purchase ''credit pack'' None None)]"

definition large_ops :: "(int \<times> ledger_op) list" where
  "large_ops = [(10, OpAdd 7 (Fin 9007199254740992) Purchase ''credit pack'' None None),
     (20, OpAdd 7 (Fin 1) Bonus ''welcome'' None None)]"

text \<open>A database for the monthly allocation: one plan with 10000 monthly credits and
  rollover with the given cap, one subscription of member 7 to it, and the given balance.\<close>

definition rollover_db :: "js_number option \<Rightarrow> js_number \<Rightarrow> db" where
  "rollover_db cap bal = empty_db
     \<lparr>subscriptionPlans :=
        [\<lparr>displayName = ''Starter'', monthlyCredits = Fin 10000, rolloverCredits = True,
          maxRolloverCredits = cap\<rparr>],
      subscriptions :=
        [\<lparr>sub_memberId = 7, planId = 0, status = Active, billingPeriod = Monthly,
          currentPeriodStart = 0, currentPeriodEnd = 2592000000, cancelAtPeriodEnd = False,
          stripeSubscriptionId = None, stripeCustomerId = None, trialStart = None,
          trialEnd = None, sub_createdAt = 0, sub_updatedAt = 0\<rparr>],
      creditBalances :=
        [\<lparr>cb_memberId = 7, balance = bal, lifetimeEarned = bal, lifetimeSpent = Fin 0,
          lastResetAt = 0, cb_updatedAt = 0\<rparr>]\<rparr>"

text \<open>An allocation for member 7, a deduction and a grant.\<close>

definition allocation_ops :: "(int \<times> ledger_op) list" where
  "allocation_ops = [(10, OpAllocate 7 0),
     (20, OpDeduct 7 (Fin 3000) ''deployment usage'' None None None),
     (30, OpAdd 7 (Fin 500) Bonus ''welcome'' None None)]"

section \<open>Auxiliary facts\<close>

subsection \<open>Integers that doubles hold exactly\<close>

lemma pow2_pos: "0 < pow2 k"
  by (simp add: pow2_def)

lemma ilog2_nat_bounds:
  "0 < n \<Longrightarrow> 2 ^ ilog2_nat n \<le> n \<and> n < 2 ^ Suc (ilog2_nat n)"
proof (induction n rule: ilog2_nat.induct)
  case (1 n)
  show ?case
  proof (cases "n < 2")
    case True
    with 1 show ?thesis by (simp add: ilog2_nat.simps [of n])
  next
    case False
    then have "0 < n div 2" by simp
    with 1 False
    have "2 ^ ilog2_nat (n div 2) \<le> n div 2 \<and> n div 2 < 2 ^ Suc (ilog2_nat (n div 2))"
      by simp
    then show ?thesis using False
      by (simp add: ilog2_nat.simps [of n]) linarith
  qed
qed

lemma ilog2_nat_unique:
  assumes "2 ^ k \<le> n" and "n < 2 ^ Suc k"
  shows "ilog2_nat n = k"
proof -
  have n: "0 < n" using assms(1) by (metis less_le_trans zero_less_numeral zero_less_power)
  note b = ilog2_nat_bounds [OF n]
  have "(2::nat) ^ k < 2 ^ Suc (ilog2_nat n)" using assms(1) b by linarith
  then have 1: "k < Suc (ilog2_nat n)" by (simp only: power_strict_increasing_iff one_less_numeral_iff semiring_norm)
  have "(2::nat) ^ ilog2_nat n < 2 ^ Suc k" using assms(2) b by linarith
  then have 2: "ilog2_nat n < Suc k" by (simp only: power_strict_increasing_iff one_less_numeral_iff semiring_norm)
  from 1 2 show ?thesis by simp
qed

lemma round_even_of_int: "round_even (of_int k) = k"
  by (simp add: round_even_def)

lemma quotient_of_abs_int: "quotient_of \<bar>of_int n :: rat\<bar> = (\<bar>n\<bar>, 1)"
proof -
  have "\<bar>of_int n :: rat\<bar> = of_int \<bar>n\<bar>" by simp
  then show ?thesis by (simp only: quotient_of_rat_of_int)
qed

lemma ilog2_of_int:
  assumes "n \<noteq> 0"
  shows "ilog2 (of_int n) = int (ilog2_nat (nat \<bar>n\<bar>))"
proof -
  have one: "ilog2_nat (Suc 0) = 0" by (simp add: ilog2_nat.simps [of "Suc 0"])
  have pos: "0 < nat \<bar>n\<bar>" using assms by simp
  have "2 ^ ilog2_nat (nat \<bar>n\<bar>) \<le> nat \<bar>n\<bar>" using ilog2_nat_bounds [OF pos] by simp
  then have "int (2 ^ ilog2_nat (nat \<bar>n\<bar>)) \<le> int (nat \<bar>n\<bar>)"
    by (simp only: of_nat_le_iff)
  then have "(2::int) ^ ilog2_nat (nat \<bar>n\<bar>) \<le> \<bar>n\<bar>" by simp
  then have "(of_int ((2::int) ^ ilog2_nat (nat \<bar>n\<bar>)) :: rat) \<le> of_int \<bar>n\<bar>"
    by (simp only: of_int_le_iff)
  then have "pow2 (int (ilog2_nat (nat \<bar>n\<bar>))) \<le> \<bar>of_int n :: rat\<bar>"
    by (simp add: pow2_def)
  then show ?thesis by (simp add: ilog2_def quotient_of_abs_int one Let_def)
qed

lemma ilog2_nat_le:
  assumes "0 < n" and "n \<le> 2 ^ k"
  shows "ilog2_nat n \<le> k"
proof -
  have "(2::nat) ^ ilog2_nat n \<le> 2 ^ k" using ilog2_nat_bounds [OF assms(1)] assms(2) by linarith
  then show ?thesis by (simp only: power_increasing_iff one_less_numeral_iff semiring_norm)
qed

lemma pow2_neg_mult: "k \<le> 0 \<Longrightarrow> pow2 k * 2 ^ nat (- k) = 1"
  by (cases "k = 0") (simp_all add: pow2_def)

lemma round_double_int:
  assumes "n \<noteq> 0" and "\<bar>n\<bar> \<le> 2 ^ 53"
  shows "round_double (of_int n) = Fin (of_int n)"
proof -
  define e where "e = int (ilog2_nat (nat \<bar>n\<bar>))"
  have pos: "0 < nat \<bar>n\<bar>" using assms(1) by simp
  have "nat \<bar>n\<bar> \<le> 2 ^ 53" using assms(2) by (simp add: nat_le_iff)
  then have e53: "e \<le> 53" using ilog2_nat_le [OF pos, of 53] by (simp add: e_def)
  have e0: "0 \<le> e" by (simp add: e_def)
  have il: "ilog2 (of_int n) = e" by (simp add: ilog2_of_int [OF assms(1)] e_def)
  have big: "\<bar>of_int n :: rat\<bar> < 2 ^ 1024"
  proof -
    have "\<bar>n\<bar> < 2 ^ 1024" using assms(2) by (rule le_less_trans) simp
    then have "(of_int \<bar>n\<bar> :: rat) < of_int (2 ^ 1024)" by (simp only: of_int_less_iff)
    then show ?thesis by simp
  qed
  have nz: "(of_int n :: rat) \<noteq> 0" using assms(1) by simp
  show ?thesis
  proof (cases "e = 53")
    case True
    have "2 ^ ilog2_nat (nat \<bar>n\<bar>) \<le> nat \<bar>n\<bar>" using ilog2_nat_bounds [OF pos] by simp
    then have "(2::nat) ^ 53 \<le> nat \<bar>n\<bar>" using True by (simp add: e_def)
    then have "\<bar>n\<bar> = 2 ^ 53" using assms(2) by (simp add: le_nat_iff)
    then have n: "n = 2 ^ 53 \<or> n = - (2 ^ 53)" by (simp add: abs_if split: if_splits)
    have q: "max e (- 1022) - 52 = 1" using True by simp
    from n show ?thesis
    proof
      assume "n = 2 ^ 53"
      then have r: "(of_int n :: rat) / pow2 1 = of_int (2 ^ 52)" by (simp add: pow2_def)
      show ?thesis
        unfolding round_double_def il q Let_def r round_even_of_int
        using \<open>n = 2 ^ 53\<close> by (simp add: pow2_def)
    next
      assume "n = - (2 ^ 53)"
      then have r: "(of_int n :: rat) / pow2 1 = of_int (- (2 ^ 52))" by (simp add: pow2_def)
      show ?thesis
        unfolding round_double_def il q Let_def r round_even_of_int
        using \<open>n = - (2 ^ 53)\<close> by (simp add: pow2_def)
    qed
  next
    case False
    define k where "k = nat (52 - e)"
    have q: "max e (- 1022) - 52 = - int k" using e0 e53 False by (simp add: k_def)
    have p: "pow2 (- int k) = 1 / 2 ^ k" by (simp add: pow2_def)
    have r: "(of_int n :: rat) / pow2 (- int k) = of_int (n * 2 ^ k)" by (simp add: p)
    have v: "(of_int (n * 2 ^ k) :: rat) * pow2 (- int k) = of_int n" by (simp add: p)
    have m: "n * 2 ^ k \<noteq> 0" using assms(1) by simp
    show ?thesis
      unfolding round_double_def il q Let_def r round_even_of_int v
      using m big by (simp del: of_int_mult of_int_power)
  qed
qed

lemma js_add_int:
  assumes "\<bar>a + b\<bar> \<le> 2 ^ 53"
  shows "js_add (Fin (of_int a)) (Fin (of_int b)) = Fin (of_int (a + b))"
proof (cases "a + b = 0")
  case True
  then have "(of_int a :: rat) + of_int b = 0" by (simp flip: of_int_add)
  then show ?thesis using True by simp
next
  case False
  then have "(of_int a :: rat) + of_int b \<noteq> 0" by (simp flip: of_int_add)
  then show ?thesis using round_double_int [OF False assms] by simp
qed

lemma js_sub_int:
  assumes "\<bar>a - b\<bar> \<le> 2 ^ 53"
  shows "js_sub (Fin (of_int a)) (Fin (of_int b)) = Fin (of_int (a - b))"
proof (cases "b = 0")
  case True
  then show ?thesis by (simp add: js_sub_def)
next
  case False
  then show ?thesis using js_add_int [of a "- b"] assms by (simp add: js_sub_def)
qed

subsection \<open>Rounding, signs and sums\<close>

lemma round_double_Ints:
  assumes "r \<in> \<int>" and "r \<noteq> 0" and "\<bar>r\<bar> \<le> 2 ^ 53"
  shows "round_double r = Fin r"
proof -
  from assms(1) obtain n where r: "r = of_int n" by (auto elim: Ints_cases)
  have "n \<noteq> 0" using assms(2) r by simp
  moreover have "\<bar>n\<bar> \<le> 2 ^ 53"
  proof -
    have "(of_int \<bar>n\<bar> :: rat) \<le> of_int (2 ^ 53)" using assms(3) r by simp
    then show ?thesis by (simp only: of_int_le_iff)
  qed
  ultimately show ?thesis using round_double_int [of n] r by simp
qed

lemma round_double_tie: "round_double 9007199254740993 = Fin 9007199254740992"
proof -
  have l: "ilog2_nat 9007199254740993 = 53"
    by (rule ilog2_nat_unique) simp_all
  have "ilog2 (of_int 9007199254740993) = int (ilog2_nat (nat \<bar>9007199254740993\<bar>))"
    by (rule ilog2_of_int) simp
  then have il: "ilog2 9007199254740993 = 53" by (simp add: l)
  have fl: "\<lfloor>9007199254740993 / 2 :: rat\<rfloor> = 4503599627370496"
    by (rule floor_unique) simp_all
  have re: "round_even (9007199254740993 / 2) = 4503599627370496"
    by (simp add: round_even_def Let_def fl)
  show ?thesis
    by (simp add: round_double_def il pow2_def re)
qed

lemma round_even_nonneg: "0 \<le> x \<Longrightarrow> 0 \<le> round_even x"
  by (simp add: round_even_def Let_def)

lemma round_double_nonneg:
  assumes "0 < r"
  shows "js_nonneg (round_double r)"
proof -
  define q where "q = max (ilog2 r) (- 1022) - 52"
  have "0 \<le> r / pow2 q" using assms pow2_pos [of q] by simp
  then have m: "0 \<le> round_even (r / pow2 q)" by (rule round_even_nonneg)
  then have "0 \<le> (of_int (round_even (r / pow2 q)) :: rat) * pow2 q"
    using pow2_pos [of q] by simp
  then show ?thesis
    using assms by (simp add: round_double_def Let_def q_def [symmetric])
qed

lemma js_add_nonneg:
  assumes "js_nonneg x" and "js_nonneg y"
  shows "js_nonneg (js_add x y)"
proof (cases x)
  case (Fin a)
  show ?thesis
  proof (cases y)
    case y: (Fin b)
    show ?thesis
    proof (cases "a + b = 0")
      case True
      then show ?thesis using Fin y by simp
    next
      case False
      then have "0 < a + b" using assms Fin y by simp
      then show ?thesis using Fin y False by (simp add: round_double_nonneg)
    qed
  qed (use assms Fin in simp_all)
qed (use assms in \<open>cases y; simp\<close>)+

lemma js_sub_nonneg:
  assumes "js_nonneg x" and "js_finite y" and "\<not> js_lt x y"
  shows "js_nonneg (js_sub x y)"
proof (cases x)
  case (Fin a)
  show ?thesis
  proof (cases y)
    case y: (Fin b)
    show ?thesis
    proof (cases "a - b = 0")
      case True
      then show ?thesis using Fin y assms by (simp add: js_sub_def)
    next
      case False
      then have "0 < a + - b" using assms Fin y by simp
      then have "js_nonneg (round_double (a + - b))" by (rule round_double_nonneg)
      then show ?thesis using Fin y False assms by (simp add: js_sub_def)
    qed
  next
    case NegZero
    show ?thesis
    proof (cases "a = 0")
      case True
      then show ?thesis using Fin NegZero by (simp add: js_sub_def)
    next
      case False
      then have "0 < a" using assms Fin by simp
      then have "js_nonneg (round_double a)" by (rule round_double_nonneg)
      then show ?thesis using Fin NegZero False by (simp add: js_sub_def)
    qed
  qed (use assms Fin in \<open>simp_all add: js_sub_def\<close>)
qed (use assms in \<open>cases y; simp add: js_sub_def\<close>)+

lemma js_min_nonneg:
  assumes "js_nonneg x" and "js_nonneg y"
  shows "js_nonneg (js_min x y)"
  using assms by (cases x; cases y) (simp_all add: js_min_def)

lemma js_or_nonneg:
  assumes "case c of None \<Rightarrow> True | Some x \<Rightarrow> js_nonneg x" and "js_nonneg y"
  shows "js_nonneg (js_or c y)"
  using assms by (simp add: js_or_def split: option.splits)

lemma int_of_Some: "int_of x = Some n \<longleftrightarrow> x = Fin (of_int n)"
  by (cases x) (auto simp: int_of_def)

lemma js_sum_snoc: "xs \<noteq> [] \<Longrightarrow> js_sum (xs @ [x]) = js_add (js_sum xs) x"
  by (cases xs) simp_all

subsection \<open>Index queries\<close>

lemma query_first_None_iff: "query_first P xs = None \<longleftrightarrow> (\<forall>x\<in>set xs. \<not> P x)"
proof -
  have "set xs = snd ` set (enumerate 0 xs)"
    by (metis map_snd_enumerate set_map)
  then show ?thesis
    unfolding query_first_def find_None_iff by force
qed

lemma query_first_Some_iff:
  "query_first P xs = Some (i, r) \<longleftrightarrow>
     i < length xs \<and> xs ! i = r \<and> P r \<and> (\<forall>j<i. \<not> P (xs ! j))"
  unfolding query_first_def find_Some_iff
  by (auto simp: nth_enumerate_eq)

lemma query_first_cases:
  obtains (none) "query_first P xs = None" "\<forall>x\<in>set xs. \<not> P x"
  | (some) i where "query_first P xs = Some (i, xs ! i)" "i < length xs" "P (xs ! i)"
      "\<forall>j<i. \<not> P (xs ! j)"
proof (cases "query_first P xs")
  case None
  then show ?thesis using none by (simp add: query_first_None_iff)
next
  case (Some p)
  obtain i r where p: "p = (i, r)" by (cases p)
  with Some show ?thesis using some [of i] by (auto simp: query_first_Some_iff)
qed

lemma query_first_append:
  "query_first P (xs @ [x]) =
     (case query_first P xs of
        Some p \<Rightarrow> Some p
      | None \<Rightarrow> if P x then Some (length xs, x) else None)"
proof (cases rule: query_first_cases [of P xs])
  case none
  have "query_first P (xs @ [x]) = (if P x then Some (length xs, x) else None)"
    using none(2)
    by (auto simp: query_first_None_iff query_first_Some_iff nth_append)
  then show ?thesis using none(1) by simp
next
  case (some i)
  moreover have "query_first P (xs @ [x]) = Some (i, xs ! i)"
    using some by (simp add: query_first_Some_iff nth_append)
  ultimately show ?thesis by simp
qed

lemma query_first_update_same:
  assumes "query_first P xs = Some (i, r)" and "P v"
  shows "query_first P (xs[i := v]) = Some (i, v)"
  using assms by (auto simp: query_first_Some_iff)

lemma query_first_update_other:
  assumes "i < length xs" and "\<not> P (xs ! i)" and "\<not> P v"
  shows "query_first P (xs[i := v]) = query_first P xs"
proof (cases rule: query_first_cases [of P xs])
  case none
  then have "\<forall>x\<in>set (xs[i := v]). \<not> P x"
    using assms by (auto dest!: set_update_subset_insert [THEN subsetD])
  then have "query_first P (xs[i := v]) = None"
    by (simp add: query_first_None_iff)
  then show ?thesis using none(1) by simp
next
  case (some k)
  then have "k \<noteq> i" using assms by auto
  then have "query_first P (xs[i := v]) = Some (k, xs ! k)"
    using some assms by (auto simp: query_first_Some_iff nth_list_update)
  then show ?thesis using some by simp
qed

lemma query_first_row:
  assumes "query_first P xs = Some (i, r)"
  shows "r \<in> set xs" and "i < length xs" and "xs ! i = r" and "P r"
  using assms by (auto simp: query_first_Some_iff)

lemma list_all_update: "list_all P xs \<Longrightarrow> P v \<Longrightarrow> list_all P (xs[i := v])"
  by (auto simp: list_all_iff dest!: set_update_subset_insert [THEN subsetD])

subsection \<open>What the ledger handlers compute\<close>

lemma addCredits_absent:
  assumes "query_first (\<lambda>b. cb_memberId b = m) (creditBalances d) = None"
  shows "addCredits m a ty ds sid md now d =
    (Inr a,
     d\<lparr>creditBalances := creditBalances d @
          [\<lparr>cb_memberId = m, balance = a, lifetimeEarned = a, lifetimeSpent = Fin 0,
            lastResetAt = now, cb_updatedAt = now\<rparr>],
       creditTransactions := creditTransactions d @
          [\<lparr>tx_memberId = m, tx_amount = a, balanceAfter = a, tx_type = ty,
            tx_description = ds, tx_subscriptionId = sid, tx_chatId = None,
            tx_usageRecordId = None, tx_metadata = md, tx_createdAt = now\<rparr>]\<rparr>)"
  using assms
  by (simp add: addCredits_def get_or_create_balance_def db_insert_def db_get_def)

lemma addCredits_present:
  assumes "query_first (\<lambda>b. cb_memberId b = m) (creditBalances d) = Some (i, b0)"
  shows "addCredits m a ty ds sid md now d =
    (Inr (js_add (balance b0) a),
     d\<lparr>creditBalances := (creditBalances d)
          [i := b0\<lparr>balance := js_add (balance b0) a,
                   lifetimeEarned := js_add (lifetimeEarned b0) a, cb_updatedAt := now\<rparr>],
       creditTransactions := creditTransactions d @
          [\<lparr>tx_memberId = m, tx_amount = a, balanceAfter = js_add (balance b0) a,
            tx_type = ty, tx_description = ds, tx_subscriptionId = sid, tx_chatId = None,
            tx_usageRecordId = None, tx_metadata = md, tx_createdAt = now\<rparr>]\<rparr>)"
proof -
  from assms have i: "i < length (creditBalances d)" "creditBalances d ! i = b0"
    by (simp_all add: query_first_Some_iff)
  show ?thesis
    using assms i
    by (simp add: addCredits_def get_or_create_balance_def db_insert_def db_get_def db_patch_def)
qed

lemma deductCredits_fail:
  assumes "query_first (\<lambda>b. cb_memberId b = m) (creditBalances d) = None
           \<or> (\<exists>i b0. query_first (\<lambda>b. cb_memberId b = m) (creditBalances d) = Some (i, b0)
                \<and> js_lt (balance b0) a)"
  shows "deductCredits m a ds cid uid md now d = (Inl (Error ''Insufficient credits''), d)"
  using assms by (auto simp: deductCredits_def)

lemma deductCredits_ok:
  assumes "query_first (\<lambda>b. cb_memberId b = m) (creditBalances d) = Some (i, b0)"
    and "\<not> js_lt (balance b0) a"
  shows "deductCredits m a ds cid uid md now d =
    (Inr (js_sub (balance b0) a),
     d\<lparr>creditBalances := (creditBalances d)
          [i := b0\<lparr>balance := js_sub (balance b0) a,
                   lifetimeSpent := js_add (lifetimeSpent b0) a, cb_updatedAt := now\<rparr>],
       creditTransactions := creditTransactions d @
          [\<lparr>tx_memberId = m, tx_amount = js_neg a, balanceAfter = js_sub (balance b0) a,
            tx_type = UsageDeduction, tx_description = ds, tx_subscriptionId = None,
            tx_chatId = cid, tx_usageRecordId = uid, tx_metadata = md,
            tx_createdAt = now\<rparr>]\<rparr>)"
proof -
  from assms have i: "i < length (creditBalances d)" "creditBalances d ! i = b0"
    by (simp_all add: query_first_Some_iff)
  show ?thesis
    using assms i
    by (simp add: deductCredits_def db_insert_def db_patch_def Let_def)
qed

text \<open>The two cases of each handler, for proofs by cases.\<close>

lemma addCredits_cases:
  obtains (absent) "query_first (\<lambda>b. cb_memberId b = m) (creditBalances d) = None"
  | (present) i b0 where
      "query_first (\<lambda>b. cb_memberId b = m) (creditBalances d) = Some (i, b0)"
  by (cases "query_first (\<lambda>b. cb_memberId b = m) (creditBalances d)") auto

lemma deductCredits_cases:
  obtains (refused)
      "deductCredits m a ds cid uid md now d = (Inl (Error ''Insufficient credits''), d)"
  | (deducted) i b0 where
      "query_first (\<lambda>b. cb_memberId b = m) (creditBalances d) = Some (i, b0)"
      "\<not> js_lt (balance b0) a"
proof (cases rule: addCredits_cases [of m d])
  case absent
  then show ?thesis using refused by (simp add: deductCredits_fail)
next
  case (present i b0)
  then show ?thesis using refused deducted by (cases "js_lt (balance b0) a") (auto simp: deductCredits_fail)
qed

lemma deductCredits_failed_same:
  assumes "isl (fst (deductCredits m a ds cid uid md now d))"
  shows "snd (deductCredits m a ds cid uid md now d) = d"
proof (cases rule: deductCredits_cases [of m a ds cid uid md now d])
  case refused
  then show ?thesis by simp
next
  case (deducted i b0)
  then show ?thesis using assms by (simp add: deductCredits_ok)
qed

text \<open>Neither ledger handler throws after a write, so running it as a mutation changes
  nothing.\<close>

lemma mutation_addCredits:
  "mutation (addCredits m a ty ds sid md now) d = addCredits m a ty ds sid md now d"
  by (cases rule: addCredits_cases [of m d])
    (simp_all add: mutation_def addCredits_absent addCredits_present)

lemma mutation_deductCredits:
  "mutation (deductCredits m a ds cid uid md now) d = deductCredits m a ds cid uid md now d"
  by (cases rule: deductCredits_cases [of m a ds cid uid md now d])
    (simp_all add: mutation_def deductCredits_ok)

lemma allocateMonthlyCredits_cases:
  obtains (skip) "allocateMonthlyCredits m sid now d = (Inr (), d)"
  | (add) sub plan where "db_get (subscriptions d) sid = Some sub"
      "db_get (subscriptionPlans d) (planId sub) = Some plan"
      "snd (allocateMonthlyCredits m sid now d) =
         snd (addCredits m
           (creditsToAdd plan (query_first (\<lambda>b. cb_memberId b = m) (creditBalances d)))
           MonthlyAllocation (''Monthly credit allocation for '' @ displayName plan @ '' plan'')
           (Some sid) None now d)"
proof (cases "db_get (subscriptions d) sid")
  case None
  then show ?thesis using skip by (simp add: allocateMonthlyCredits_def)
next
  case (Some sub)
  show ?thesis
  proof (cases "db_get (subscriptionPlans d) (planId sub)")
    case None
    then show ?thesis using skip Some by (simp add: allocateMonthlyCredits_def)
  next
    case plan: (Some plan)
    show ?thesis
      by (rule add [OF Some plan])
        (simp add: allocateMonthlyCredits_def Some plan mutation_addCredits
          split: prod.splits sum.splits)
  qed
qed

subsection \<open>Balance, earned and spent on integers in range\<close>

lemma doc_exact_iff:
  "doc_exact K b \<longleftrightarrow>
     (\<exists>n e s. balance b = Fin (of_int n) \<and> lifetimeEarned b = Fin (of_int e)
        \<and> lifetimeSpent b = Fin (of_int s) \<and> n = e - s
        \<and> \<bar>n\<bar> \<le> K \<and> \<bar>e\<bar> \<le> K \<and> \<bar>s\<bar> \<le> K)"
proof
  assume "doc_exact K b"
  then obtain n e s where "int_of (balance b) = Some n" "int_of (lifetimeEarned b) = Some e"
      "int_of (lifetimeSpent b) = Some s" "n = e - s" "\<bar>n\<bar> \<le> K" "\<bar>e\<bar> \<le> K" "\<bar>s\<bar> \<le> K"
    by (auto simp: doc_exact_def split: option.splits)
  then show "\<exists>n e s. balance b = Fin (of_int n) \<and> lifetimeEarned b = Fin (of_int e)
        \<and> lifetimeSpent b = Fin (of_int s) \<and> n = e - s
        \<and> \<bar>n\<bar> \<le> K \<and> \<bar>e\<bar> \<le> K \<and> \<bar>s\<bar> \<le> K"
    by (auto simp: int_of_Some)
next
  assume "\<exists>n e s. balance b = Fin (of_int n) \<and> lifetimeEarned b = Fin (of_int e)
        \<and> lifetimeSpent b = Fin (of_int s) \<and> n = e - s
        \<and> \<bar>n\<bar> \<le> K \<and> \<bar>e\<bar> \<le> K \<and> \<bar>s\<bar> \<le> K"
  then obtain n e s where "int_of (balance b) = Some n" "int_of (lifetimeEarned b) = Some e"
      "int_of (lifetimeSpent b) = Some s" "n = e - s" "\<bar>n\<bar> \<le> K" "\<bar>e\<bar> \<le> K" "\<bar>s\<bar> \<le> K"
    by (auto simp: int_of_Some)
  then show "doc_exact K b" by (simp add: doc_exact_def)
qed

lemma doc_exactI:
  assumes "balance b = Fin (of_int n)" and "lifetimeEarned b = Fin (of_int e)"
    and "lifetimeSpent b = Fin (of_int s)" and "n = e - s"
    and "\<bar>n\<bar> \<le> K" and "\<bar>e\<bar> \<le> K" and "\<bar>s\<bar> \<le> K"
  shows "doc_exact K b"
  unfolding doc_exact_iff using assms by blast

lemma doc_exact_mono: "doc_exact K b \<Longrightarrow> K \<le> K' \<Longrightarrow> doc_exact K' b"
  unfolding doc_exact_iff by force

lemma docs_exact_mono:
  "list_all (doc_exact K) bs \<Longrightarrow> K \<le> K' \<Longrightarrow> list_all (doc_exact K') bs"
  by (auto simp: list_all_iff intro: doc_exact_mono)

lemma doc_exact_consistent:
  assumes "doc_exact K b" and "K \<le> 2 ^ 53"
  shows "balance b = js_sub (lifetimeEarned b) (lifetimeSpent b)"
proof -
  from assms(1) obtain n e s where f: "balance b = Fin (of_int n)"
      "lifetimeEarned b = Fin (of_int e)" "lifetimeSpent b = Fin (of_int s)"
      "n = e - s" "\<bar>n\<bar> \<le> K"
    unfolding doc_exact_iff by blast
  then have "\<bar>e - s\<bar> \<le> 2 ^ 53" using assms(2) by simp
  then show ?thesis using f by (simp add: js_sub_int)
qed

lemma addCredits_exact:
  assumes inv: "list_all (doc_exact K) (creditBalances d)"
    and a: "int_of a = Some n" and K: "0 \<le> K" "K + \<bar>n\<bar> \<le> 2 ^ 53"
  shows "list_all (doc_exact (K + \<bar>n\<bar>))
           (creditBalances (snd (addCredits m a ty ds sid md now d)))"
proof -
  have a': "a = Fin (of_int n)" using a by (simp add: int_of_Some)
  have old: "list_all (doc_exact (K + \<bar>n\<bar>)) (creditBalances d)"
    using inv by (rule docs_exact_mono) simp
  show ?thesis
  proof (cases rule: addCredits_cases [of m d])
    case absent
    have "doc_exact (K + \<bar>n\<bar>)
        \<lparr>cb_memberId = m, balance = a, lifetimeEarned = a, lifetimeSpent = Fin 0,
         lastResetAt = now, cb_updatedAt = now\<rparr>"
      using a' K(1) by (intro doc_exactI [of _ n n 0]) simp_all
    then show ?thesis using old by (simp add: addCredits_absent [OF absent])
  next
    case (present i b0)
    from query_first_row(1) [OF present] inv have "doc_exact K b0"
      by (simp add: list_all_iff)
    then obtain nb e s where f: "balance b0 = Fin (of_int nb)"
        "lifetimeEarned b0 = Fin (of_int e)" "lifetimeSpent b0 = Fin (of_int s)"
        "nb = e - s" "\<bar>nb\<bar> \<le> K" "\<bar>e\<bar> \<le> K" "\<bar>s\<bar> \<le> K"
      unfolding doc_exact_iff by blast
    have 1: "js_add (balance b0) a = Fin (of_int (nb + n))"
      unfolding f(1) a' using f(5) K(2) by (intro js_add_int) linarith
    have 2: "js_add (lifetimeEarned b0) a = Fin (of_int (e + n))"
      unfolding f(2) a' using f(6) K(2) by (intro js_add_int) linarith
    have "doc_exact (K + \<bar>n\<bar>)
        (b0\<lparr>balance := js_add (balance b0) a, lifetimeEarned := js_add (lifetimeEarned b0) a,
            cb_updatedAt := now\<rparr>)"
    proof (rule doc_exactI [of _ "nb + n" "e + n" s])
      show "\<bar>nb + n\<bar> \<le> K + \<bar>n\<bar>" "\<bar>e + n\<bar> \<le> K + \<bar>n\<bar>" "\<bar>s\<bar> \<le> K + \<bar>n\<bar>"
        using f(5-7) by linarith+
      show "nb + n = e + n - s" using f(4) by simp
    qed (simp_all add: 1 2 f(3))
    then show ?thesis using old by (simp add: addCredits_present [OF present] list_all_update)
  qed
qed

lemma deductCredits_exact:
  assumes inv: "list_all (doc_exact K) (creditBalances d)"
    and a: "int_of a = Some n" and K: "0 \<le> K" "K + \<bar>n\<bar> \<le> 2 ^ 53"
  shows "list_all (doc_exact (K + \<bar>n\<bar>))
           (creditBalances (snd (deductCredits m a ds cid uid md now d)))"
proof -
  have a': "a = Fin (of_int n)" using a by (simp add: int_of_Some)
  have old: "list_all (doc_exact (K + \<bar>n\<bar>)) (creditBalances d)"
    using inv by (rule docs_exact_mono) simp
  show ?thesis
  proof (cases rule: deductCredits_cases [of m a ds cid uid md now d])
    case refused
    then show ?thesis using old by simp
  next
    case (deducted i b0)
    from query_first_row(1) [OF deducted(1)] inv have "doc_exact K b0"
      by (simp add: list_all_iff)
    then obtain nb e s where f: "balance b0 = Fin (of_int nb)"
        "lifetimeEarned b0 = Fin (of_int e)" "lifetimeSpent b0 = Fin (of_int s)"
        "nb = e - s" "\<bar>nb\<bar> \<le> K" "\<bar>e\<bar> \<le> K" "\<bar>s\<bar> \<le> K"
      unfolding doc_exact_iff by blast
    have 1: "js_sub (balance b0) a = Fin (of_int (nb - n))"
      unfolding f(1) a' using f(5) K(2) by (intro js_sub_int) linarith
    have 2: "js_add (lifetimeSpent b0) a = Fin (of_int (s + n))"
      unfolding f(3) a' using f(7) K(2) by (intro js_add_int) linarith
    have "doc_exact (K + \<bar>n\<bar>)
        (b0\<lparr>balance := js_sub (balance b0) a, lifetimeSpent := js_add (lifetimeSpent b0) a,
            cb_updatedAt := now\<rparr>)"
    proof (rule doc_exactI [of _ "nb - n" e "s + n"])
      show "\<bar>nb - n\<bar> \<le> K + \<bar>n\<bar>" "\<bar>e\<bar> \<le> K + \<bar>n\<bar>" "\<bar>s + n\<bar> \<le> K + \<bar>n\<bar>"
        using f(5-7) by linarith+
      show "nb - n = e - (s + n)" using f(4) by simp
    qed (simp_all add: 1 2 f(2))
    then show ?thesis
      using old by (simp add: deductCredits_ok [OF deducted] list_all_update)
  qed
qed

lemma apply_op_exact:
  assumes "list_all (doc_exact K) (creditBalances d)"
    and "op_magnitude x = Some j" and "0 \<le> K" and "K + j \<le> 2 ^ 53"
  shows "list_all (doc_exact (K + j)) (creditBalances (apply_op x d))"
proof -
  obtain now op where x: "x = (now, op)" by (cases x)
  show ?thesis
  proof (cases op)
    case (OpAdd m a ty ds sid md)
    with assms(2) x obtain n where "int_of a = Some n" "j = \<bar>n\<bar>" by auto
    then show ?thesis using assms x OpAdd by (simp add: addCredits_exact)
  next
    case (OpDeduct m a ds cid uid md)
    with assms(2) x obtain n where "int_of a = Some n" "j = \<bar>n\<bar>" by auto
    then show ?thesis using assms x OpDeduct by (simp add: deductCredits_exact)
  next
    case (OpAllocate m sid)
    then show ?thesis using assms(2) x by simp
  qed
qed

lemma op_magnitude_nonneg: "op_magnitude x = Some j \<Longrightarrow> 0 \<le> j"
  by (cases x rule: op_magnitude.cases) auto

lemma total_magnitude_Cons:
  "op_magnitude x = Some j \<Longrightarrow> total_magnitude (x # ops) = j + total_magnitude ops"
  by (simp add: total_magnitude_def)

lemma total_magnitude_nonneg: "0 \<le> total_magnitude ops"
  unfolding total_magnitude_def
  by (rule sum_list_nonneg) (auto split: option.splits dest: op_magnitude_nonneg)

lemma run_ops_exact:
  assumes "list_all (doc_exact K) (creditBalances d)" and "0 \<le> K"
    and "list_all integer_op ops" and "K + total_magnitude ops \<le> 2 ^ 53"
  shows "list_all (doc_exact (K + total_magnitude ops)) (creditBalances (run_ops ops d))"
  using assms
proof (induction ops arbitrary: K d)
  case Nil
  then show ?case by (simp add: total_magnitude_def)
next
  case (Cons x ops)
  from Cons.prems(3) obtain j where j: "op_magnitude x = Some j"
    by (auto simp: integer_op_def)
  note t = total_magnitude_Cons [OF j, of ops]
  have j0: "0 \<le> j" using j by (rule op_magnitude_nonneg)
  have "K + j \<le> 2 ^ 53"
    using Cons.prems(4) total_magnitude_nonneg [of ops] by (simp add: t)
  then have 1: "list_all (doc_exact (K + j)) (creditBalances (apply_op x d))"
    using Cons.prems(1,2) j by (intro apply_op_exact)
  have "list_all (doc_exact (K + j + total_magnitude ops))
      (creditBalances (run_ops ops (apply_op x d)))"
    using 1 Cons.prems j0 by (intro Cons.IH) (simp_all add: t)
  then show ?case by (simp add: t add.assoc)
qed

lemma total_magnitude_take: "total_magnitude (take k ops) \<le> total_magnitude ops"
proof -
  have "total_magnitude ops = total_magnitude (take k ops) + total_magnitude (drop k ops)"
    unfolding total_magnitude_def
    by (metis append_take_drop_id map_append sum_list_append)
  then show ?thesis using total_magnitude_nonneg [of "drop k ops"] by simp
qed

lemma getCreditBalance_consistent:
  assumes "ledger_consistent d"
  shows "(case getCreditBalance m d of (b, e, s) \<Rightarrow> b = js_sub e s)"
proof (cases rule: addCredits_cases [of m d])
  case absent
  then show ?thesis by (simp add: getCreditBalance_def js_sub_def)
next
  case (present i b0)
  from query_first_row(1) [OF present] assms
  have "balance b0 = js_sub (lifetimeEarned b0) (lifetimeSpent b0)"
    by (simp add: ledger_consistent_def list_all_iff)
  then show ?thesis using present by (simp add: getCreditBalance_def)
qed

subsection \<open>Balances and the transaction log\<close>

lemma member_amounts_snoc:
  "member_amounts m' (txs @ [t]) =
     (if tx_memberId t = m' then member_amounts m' txs @ [tx_amount t]
      else member_amounts m' txs)"
  by (simp add: member_amounts_def)

lemma tx_sum_snoc:
  "tx_sum m' (txs @ [t]) =
     (if tx_memberId t = m' then js_sum (member_amounts m' txs @ [tx_amount t])
      else tx_sum m' txs)"
  by (simp add: tx_sum_def member_amounts_snoc)

lemma snapshots_ok_snoc:
  "snapshots_ok (txs @ [t]) =
     (snapshots_ok txs \<and> balanceAfter t = tx_sum (tx_memberId t) (txs @ [t]))"
proof -
  have "list_all (\<lambda>k. balanceAfter ((txs @ [t]) ! k) =
            tx_sum (tx_memberId ((txs @ [t]) ! k)) (take (Suc k) (txs @ [t]))) [0..<length txs]
        = snapshots_ok txs"
    unfolding snapshots_ok_def list_all_iff
    by (intro ball_cong refl) (simp add: nth_append)
  then show ?thesis
    by (simp add: snapshots_ok_def [of "txs @ [t]"])
qed

lemma matches_balance_of:
  "ledger_matches m d \<Longrightarrow> balance_of m d = tx_sum m (creditTransactions d)"
  by (auto simp: ledger_matches_def balance_of_def getCreditBalance_def tx_sum_def
      split: option.splits)

lemma query_first_other_append:
  "\<not> P x \<Longrightarrow> query_first P (xs @ [x]) = query_first P xs"
  by (simp add: query_first_append split: option.splits)

lemma ledger_matches_cong:
  assumes "query_first (\<lambda>b. cb_memberId b = m) (creditBalances d')
      = query_first (\<lambda>b. cb_memberId b = m) (creditBalances d)"
    and "member_amounts m (creditTransactions d') = member_amounts m (creditTransactions d)"
  shows "ledger_matches m d' = ledger_matches m d"
  using assms by (auto simp: ledger_matches_def tx_sum_def split: option.splits)

lemma addCredits_matches:
  assumes "ledger_matches m' d"
  shows "ledger_matches m' (snd (addCredits m a ty ds sid md now d))"
proof (cases rule: addCredits_cases [of m d])
  case absent
  show ?thesis
  proof (cases "m' = m")
    case True
    then show ?thesis
      using assms absent
      by (simp add: addCredits_absent ledger_matches_def query_first_append
          member_amounts_snoc tx_sum_def)
  next
    case False
    have "ledger_matches m' (snd (addCredits m a ty ds sid md now d)) = ledger_matches m' d"
      using False
      by (intro ledger_matches_cong)
        (simp_all add: addCredits_absent [OF absent] query_first_other_append
          member_amounts_snoc)
    then show ?thesis using assms by simp
  qed
next
  case (present i b0)
  show ?thesis
  proof (cases "m' = m")
    case True
    have "query_first (\<lambda>b. cb_memberId b = m) ((creditBalances d)
            [i := b0\<lparr>balance := js_add (balance b0) a,
                     lifetimeEarned := js_add (lifetimeEarned b0) a, cb_updatedAt := now\<rparr>])
          = Some (i, b0\<lparr>balance := js_add (balance b0) a,
                     lifetimeEarned := js_add (lifetimeEarned b0) a, cb_updatedAt := now\<rparr>)"
      using present query_first_row(4) [OF present] by (intro query_first_update_same) simp_all
    then show ?thesis
      using assms present True
      by (simp add: addCredits_present [OF present] ledger_matches_def member_amounts_snoc
          tx_sum_def js_sum_snoc)
  next
    case False
    have "query_first (\<lambda>b. cb_memberId b = m') ((creditBalances d)
            [i := b0\<lparr>balance := js_add (balance b0) a,
                     lifetimeEarned := js_add (lifetimeEarned b0) a, cb_updatedAt := now\<rparr>])
          = query_first (\<lambda>b. cb_memberId b = m') (creditBalances d)"
      using False query_first_row [OF present] by (intro query_first_update_other) simp_all
    then have "ledger_matches m' (snd (addCredits m a ty ds sid md now d))
        = ledger_matches m' d"
      using False
      by (intro ledger_matches_cong)
        (simp_all add: addCredits_present [OF present] member_amounts_snoc)
    then show ?thesis using assms by simp
  qed
qed

lemma deductCredits_matches:
  assumes "ledger_matches m' d"
  shows "ledger_matches m' (snd (deductCredits m a ds cid uid md now d))"
proof (cases rule: deductCredits_cases [of m a ds cid uid md now d])
  case refused
  then show ?thesis using assms by simp
next
  case (deducted i b0)
  show ?thesis
  proof (cases "m' = m")
    case True
    have "query_first (\<lambda>b. cb_memberId b = m) ((creditBalances d)
            [i := b0\<lparr>balance := js_sub (balance b0) a,
                     lifetimeSpent := js_add (lifetimeSpent b0) a, cb_updatedAt := now\<rparr>])
          = Some (i, b0\<lparr>balance := js_sub (balance b0) a,
                     lifetimeSpent := js_add (lifetimeSpent b0) a, cb_updatedAt := now\<rparr>)"
      using deducted(1) query_first_row(4) [OF deducted(1)]
      by (intro query_first_update_same) simp_all
    then show ?thesis
      using assms deducted(1) True
      by (simp add: deductCredits_ok [OF deducted] ledger_matches_def member_amounts_snoc
          tx_sum_def js_sum_snoc js_sub_def)
  next
    case False
    have "query_first (\<lambda>b. cb_memberId b = m') ((creditBalances d)
            [i := b0\<lparr>balance := js_sub (balance b0) a,
                     lifetimeSpent := js_add (lifetimeSpent b0) a, cb_updatedAt := now\<rparr>])
          = query_first (\<lambda>b. cb_memberId b = m') (creditBalances d)"
      using False query_first_row [OF deducted(1)]
      by (intro query_first_update_other) simp_all
    then have "ledger_matches m' (snd (deductCredits m a ds cid uid md now d))
        = ledger_matches m' d"
      using False
      by (intro ledger_matches_cong)
        (simp_all add: deductCredits_ok [OF deducted] member_amounts_snoc)
    then show ?thesis using assms by simp
  qed
qed

text \<open>The balance a handler returns is the balance the member sees afterwards, and the
  transaction it appends records it.\<close>

lemma addCredits_log:
  "\<exists>t. creditTransactions (snd (addCredits m a ty ds sid md now d)) = creditTransactions d @ [t]
     \<and> tx_memberId t = m \<and> tx_amount t = a
     \<and> balanceAfter t = balance_of m (snd (addCredits m a ty ds sid md now d))
     \<and> fst (addCredits m a ty ds sid md now d) = Inr (balanceAfter t)"
proof (cases rule: addCredits_cases [of m d])
  case absent
  then show ?thesis
    by (simp add: addCredits_absent balance_of_def getCreditBalance_def query_first_append)
next
  case (present i b0)
  have "query_first (\<lambda>b. cb_memberId b = m) ((creditBalances d)
            [i := b0\<lparr>balance := js_add (balance b0) a,
                     lifetimeEarned := js_add (lifetimeEarned b0) a, cb_updatedAt := now\<rparr>])
          = Some (i, b0\<lparr>balance := js_add (balance b0) a,
                     lifetimeEarned := js_add (lifetimeEarned b0) a, cb_updatedAt := now\<rparr>)"
    using present query_first_row(4) [OF present] by (intro query_first_update_same) simp_all
  then show ?thesis
    by (simp add: addCredits_present [OF present] balance_of_def getCreditBalance_def)
qed

lemma deductCredits_log:
  assumes "\<not> isl (fst (deductCredits m a ds cid uid md now d))"
  shows "\<exists>t. creditTransactions (snd (deductCredits m a ds cid uid md now d))
              = creditTransactions d @ [t]
     \<and> tx_memberId t = m \<and> tx_amount t = js_neg a
     \<and> balanceAfter t = balance_of m (snd (deductCredits m a ds cid uid md now d))
     \<and> fst (deductCredits m a ds cid uid md now d) = Inr (balanceAfter t)
     \<and> balanceAfter t = js_sub (balance_of m d) a"
proof (cases rule: deductCredits_cases [of m a ds cid uid md now d])
  case refused
  then show ?thesis using assms by simp
next
  case (deducted i b0)
  have "query_first (\<lambda>b. cb_memberId b = m) ((creditBalances d)
            [i := b0\<lparr>balance := js_sub (balance b0) a,
                     lifetimeSpent := js_add (lifetimeSpent b0) a, cb_updatedAt := now\<rparr>])
          = Some (i, b0\<lparr>balance := js_sub (balance b0) a,
                     lifetimeSpent := js_add (lifetimeSpent b0) a, cb_updatedAt := now\<rparr>)"
    using deducted(1) query_first_row(4) [OF deducted(1)]
    by (intro query_first_update_same) simp_all
  then show ?thesis
    using deducted(1)
    by (simp add: deductCredits_ok [OF deducted] balance_of_def getCreditBalance_def)
qed

lemma addCredits_reconciled:
  assumes "\<forall>m'. ledger_matches m' d" and "snapshots_ok (creditTransactions d)"
  shows "(\<forall>m'. ledger_matches m' (snd (addCredits m a ty ds sid md now d)))
     \<and> snapshots_ok (creditTransactions (snd (addCredits m a ty ds sid md now d)))"
proof -
  have m: "\<forall>m'. ledger_matches m' (snd (addCredits m a ty ds sid md now d))"
    using assms(1) by (simp add: addCredits_matches)
  obtain t where t: "creditTransactions (snd (addCredits m a ty ds sid md now d))
        = creditTransactions d @ [t]" "tx_memberId t = m"
      "balanceAfter t = balance_of m (snd (addCredits m a ty ds sid md now d))"
    using addCredits_log [of m a ty ds sid md now d] by blast
  have "balanceAfter t = tx_sum (tx_memberId t) (creditTransactions d @ [t])"
    using matches_balance_of [OF m [rule_format, of m]] t by simp
  then show ?thesis using m assms(2) by (simp add: t(1) snapshots_ok_snoc)
qed

lemma deductCredits_reconciled:
  assumes "\<forall>m'. ledger_matches m' d" and "snapshots_ok (creditTransactions d)"
  shows "(\<forall>m'. ledger_matches m' (snd (deductCredits m a ds cid uid md now d)))
     \<and> snapshots_ok (creditTransactions (snd (deductCredits m a ds cid uid md now d)))"
proof (cases "isl (fst (deductCredits m a ds cid uid md now d))")
  case True
  then show ?thesis using assms by (simp add: deductCredits_failed_same)
next
  case False
  have m: "\<forall>m'. ledger_matches m' (snd (deductCredits m a ds cid uid md now d))"
    using assms(1) by (simp add: deductCredits_matches)
  obtain t where t: "creditTransactions (snd (deductCredits m a ds cid uid md now d))
        = creditTransactions d @ [t]" "tx_memberId t = m"
      "balanceAfter t = balance_of m (snd (deductCredits m a ds cid uid md now d))"
    using deductCredits_log [OF False] by blast
  have "balanceAfter t = tx_sum (tx_memberId t) (creditTransactions d @ [t])"
    using matches_balance_of [OF m [rule_format, of m]] t by simp
  then show ?thesis using m assms(2) by (simp add: t(1) snapshots_ok_snoc)
qed

lemma apply_op_reconciled:
  assumes "\<forall>m. ledger_matches m d" and "snapshots_ok (creditTransactions d)"
  shows "(\<forall>m. ledger_matches m (apply_op x d))
     \<and> snapshots_ok (creditTransactions (apply_op x d))"
proof -
  obtain now op where x: "x = (now, op)" by (cases x)
  show ?thesis
  proof (cases op)
    case (OpAdd m a ty ds sid md)
    then show ?thesis using x addCredits_reconciled [OF assms] by simp
  next
    case (OpDeduct m a ds cid uid md)
    then show ?thesis using x deductCredits_reconciled [OF assms] by simp
  next
    case (OpAllocate m sid)
    show ?thesis
    proof (cases rule: allocateMonthlyCredits_cases [of m sid now d])
      case skip
      then show ?thesis using x OpAllocate assms by simp
    next
      case (add sub plan)
      then show ?thesis using x OpAllocate addCredits_reconciled [OF assms] by simp
    qed
  qed
qed

lemma run_ops_reconciled:
  assumes "\<forall>m. ledger_matches m d" and "snapshots_ok (creditTransactions d)"
  shows "(\<forall>m. ledger_matches m (run_ops ops d))
     \<and> snapshots_ok (creditTransactions (run_ops ops d))"
  using assms
proof (induction ops arbitrary: d)
  case Nil
  then show ?case by simp
next
  case (Cons x ops)
  from apply_op_reconciled [OF Cons.prems, of x] show ?case
    by (auto intro: Cons.IH [THEN conjunct1, rule_format] Cons.IH [THEN conjunct2])
qed

subsection \<open>Balances that stay non-negative\<close>

lemma addCredits_nonneg:
  assumes "balances_nonneg d" and "js_nonneg a"
  shows "balances_nonneg (snd (addCredits m a ty ds sid md now d))"
proof (cases rule: addCredits_cases [of m d])
  case absent
  then show ?thesis using assms by (simp add: addCredits_absent balances_nonneg_def)
next
  case (present i b0)
  from query_first_row(1) [OF present] assms have "js_nonneg (balance b0)"
    by (simp add: balances_nonneg_def list_all_iff)
  then have "js_nonneg (js_add (balance b0) a)" using assms(2) by (rule js_add_nonneg)
  then show ?thesis
    using assms by (simp add: addCredits_present [OF present] balances_nonneg_def list_all_update)
qed

lemma deductCredits_nonneg:
  assumes "balances_nonneg d" and "js_finite a"
  shows "balances_nonneg (snd (deductCredits m a ds cid uid md now d))"
proof (cases rule: deductCredits_cases [of m a ds cid uid md now d])
  case refused
  then show ?thesis using assms by simp
next
  case (deducted i b0)
  from query_first_row(1) [OF deducted(1)] assms have "js_nonneg (balance b0)"
    by (simp add: balances_nonneg_def list_all_iff)
  then have "js_nonneg (js_sub (balance b0) a)"
    using assms(2) deducted(2) by (rule js_sub_nonneg)
  then show ?thesis
    using assms by (simp add: deductCredits_ok [OF deducted] balances_nonneg_def list_all_update)
qed

lemma creditsToAdd_nonneg:
  assumes "js_nonneg (monthlyCredits plan)"
    and "case maxRolloverCredits plan of None \<Rightarrow> True | Some c \<Rightarrow> js_nonneg c"
    and "case bal of None \<Rightarrow> True | Some (i, b) \<Rightarrow> js_nonneg (balance b)"
  shows "js_nonneg (creditsToAdd plan bal)"
proof (cases bal)
  case None
  then show ?thesis using assms(1) by (simp add: creditsToAdd_def)
next
  case (Some p)
  obtain i b where p: "p = (i, b)" by (cases p)
  have "js_nonneg (js_or (maxRolloverCredits plan) (monthlyCredits plan))"
    using assms(2,1) by (rule js_or_nonneg)
  then have "js_nonneg (js_min (balance b)
      (js_or (maxRolloverCredits plan) (monthlyCredits plan)))"
    using assms(3) Some p by (intro js_min_nonneg) simp_all
  then have "js_nonneg (js_add (monthlyCredits plan) (js_min (balance b)
      (js_or (maxRolloverCredits plan) (monthlyCredits plan))))"
    using assms(1) by (intro js_add_nonneg)
  then show ?thesis using assms(1) Some p by (simp add: creditsToAdd_def)
qed

lemma addCredits_plans:
  "subscriptionPlans (snd (addCredits m a ty ds sid md now d)) = subscriptionPlans d"
  by (cases rule: addCredits_cases [of m d])
    (simp_all add: addCredits_absent addCredits_present)

lemma deductCredits_plans:
  "subscriptionPlans (snd (deductCredits m a ds cid uid md now d)) = subscriptionPlans d"
  by (cases rule: deductCredits_cases [of m a ds cid uid md now d])
    (simp_all add: deductCredits_ok)

lemma apply_op_plans: "subscriptionPlans (apply_op x d) = subscriptionPlans d"
proof -
  obtain now op where x: "x = (now, op)" by (cases x)
  show ?thesis
  proof (cases op)
    case (OpAllocate m sid)
    show ?thesis
      by (cases rule: allocateMonthlyCredits_cases [of m sid now d])
        (use x OpAllocate in \<open>simp_all add: addCredits_plans\<close>)
  qed (use x in \<open>simp_all add: addCredits_plans deductCredits_plans\<close>)
qed

lemma apply_op_nonneg:
  assumes "balances_nonneg d" and "plans_nonneg d" and "op_nonneg x"
  shows "balances_nonneg (apply_op x d)"
proof -
  obtain now op where x: "x = (now, op)" by (cases x)
  show ?thesis
  proof (cases op)
    case (OpAdd m a ty ds sid md)
    then show ?thesis using x assms by (simp add: addCredits_nonneg)
  next
    case (OpDeduct m a ds cid uid md)
    then show ?thesis using x assms by (simp add: deductCredits_nonneg)
  next
    case (OpAllocate m sid)
    show ?thesis
    proof (cases rule: allocateMonthlyCredits_cases [of m sid now d])
      case skip
      then show ?thesis using x OpAllocate assms by simp
    next
      case (add sub plan)
      from add(2) have "plan \<in> set (subscriptionPlans d)"
        by (auto simp: db_get_def split: if_splits)
      with assms(2) have p: "js_nonneg (monthlyCredits plan)"
        "case maxRolloverCredits plan of None \<Rightarrow> True | Some c \<Rightarrow> js_nonneg c"
        by (simp_all add: plans_nonneg_def list_all_iff)
      have b: "case query_first (\<lambda>b. cb_memberId b = m) (creditBalances d) of
          None \<Rightarrow> True | Some (i, b) \<Rightarrow> js_nonneg (balance b)"
        using assms(1)
        by (auto simp: balances_nonneg_def list_all_iff split: option.splits
            dest: query_first_row(1))
      have "js_nonneg (creditsToAdd plan
          (query_first (\<lambda>b. cb_memberId b = m) (creditBalances d)))"
        using p b by (rule creditsToAdd_nonneg)
      then show ?thesis using x OpAllocate add(3) assms(1) by (simp add: addCredits_nonneg)
    qed
  qed
qed

lemma run_ops_nonneg:
  assumes "balances_nonneg d" and "plans_nonneg d" and "list_all op_nonneg ops"
  shows "balances_nonneg (run_ops ops d)"
  using assms
proof (induction ops arbitrary: d)
  case Nil
  then show ?case by simp
next
  case (Cons x ops)
  have "plans_nonneg (apply_op x d)"
    using Cons.prems(2) by (simp add: plans_nonneg_def apply_op_plans)
  moreover have "balances_nonneg (apply_op x d)"
    using Cons.prems by (simp add: apply_op_nonneg)
  ultimately show ?case using Cons.prems(3) by (simp add: Cons.IH)
qed

lemma balance_of_nonneg:
  assumes "balances_nonneg d"
  shows "js_nonneg (balance_of m d)"
proof (cases rule: addCredits_cases [of m d])
  case absent
  then show ?thesis by (simp add: balance_of_def getCreditBalance_def)
next
  case (present i b0)
  from query_first_row(1) [OF present] assms have "js_nonneg (balance b0)"
    by (simp add: balances_nonneg_def list_all_iff)
  then show ?thesis using present by (simp add: balance_of_def getCreditBalance_def)
qed

lemma deductCredits_below:
  assumes "js_lt (balance_of m d) a"
  shows "deductCredits m a ds cid uid md now d = (Inl (Error ''Insufficient credits''), d)"
proof (cases rule: addCredits_cases [of m d])
  case absent
  then show ?thesis by (simp add: deductCredits_fail)
next
  case (present i b0)
  then have "js_lt (balance b0) a"
    using assms by (simp add: balance_of_def getCreditBalance_def)
  then show ?thesis using present by (simp add: deductCredits_fail)
qed

lemma deductCredits_difference:
  assumes "\<not> isl (fst (deductCredits m a ds cid uid md now d))"
  shows "balance_of m (snd (deductCredits m a ds cid uid md now d)) = js_sub (balance_of m d) a"
  using deductCredits_log [OF assms] by auto

subsection \<open>The sample data\<close>

lemmas ledger_defs = balance_of_def getCreditBalance_def addCredits_def
  deductCredits_def get_or_create_balance_def query_first_def db_insert_def db_get_def
  db_patch_def empty_db_def sample_db_def sample_balance_def js_sub_def Let_def
  round_double_Ints round_double_tie

lemma sample_ops_balance:
  "getCreditBalance 7 (run_ops (take 1 sample_ops) empty_db) = (Fin 100, Fin 100, Fin 0)"
  "getCreditBalance 7 (run_ops (take 2 sample_ops) empty_db) = (Fin 70, Fin 100, Fin 30)"
  "getCreditBalance 7 (run_ops (take 3 sample_ops) sample_db) = (Fin 220, Fin 300, Fin 80)"
  by (simp_all add: sample_ops_def ledger_defs)

lemma sample_ops_integer:
  "list_all integer_op sample_ops" "total_magnitude sample_ops = 630"
  "list_all (doc_exact 200) (creditBalances sample_db)"
  "list_all (doc_exact 0) (creditBalances empty_db)"
  by (simp_all add: sample_ops_def integer_op_def total_magnitude_def int_of_def doc_exact_def
      ledger_defs)

lemma rounding_ops_balance:
  "getCreditBalance 7 (run_ops rounding_ops empty_db)
     = (Fin 9007199254740992, Fin 9007199254740992, Fin 1)"
  by (simp add: rounding_ops_def ledger_defs)

lemma sample_db_reconciled:
  "\<forall>m. ledger_matches m sample_db" "snapshots_ok (creditTransactions sample_db)"
  by (simp_all add: ledger_matches_def member_amounts_def tx_sum_def snapshots_ok_def
      upt_rec [of _ "Suc _"] ledger_defs)

lemma sample_db_run:
  "balance_of 7 (run_ops sample_ops sample_db) = Fin 220"
  "map tx_amount (creditTransactions (run_ops sample_ops sample_db))
     = [Fin 200, Fin (- 50), Fin 100, Fin (- 30)]"
  "map balanceAfter (creditTransactions (run_ops sample_ops sample_db))
     = [Fin 200, Fin 150, Fin 250, Fin 220]"
  "\<not> isl (fst (deductCredits 7 (Fin 30) ''api_call usage'' None None None 20 sample_db))"
  "balance_of 7 (snd (deductCredits 7 (Fin 30) ''api_call usage'' None None None 20 sample_db))
     = Fin 120"
  by (simp_all add: sample_ops_def ledger_defs)

lemma large_ops_run:
  "balance_of 7 (run_ops large_ops empty_db) = Fin 9007199254740992"
  "map tx_amount (creditTransactions (run_ops large_ops empty_db))
     = [Fin 9007199254740992, Fin 1]"
  by (simp_all add: large_ops_def ledger_defs add.commute)

lemma sample_db_nonneg:
  "balances_nonneg (rollover_db (Some (Fin 5000)) (Fin 8000))"
  "plans_nonneg (rollover_db (Some (Fin 5000)) (Fin 8000))"
  "list_all op_nonneg allocation_ops"
  by (simp_all add: balances_nonneg_def plans_nonneg_def allocation_ops_def rollover_db_def
      empty_db_def)

lemmas allocate_defs = allocateMonthlyCredits_def creditsToAdd_def js_or_def js_min_def
  js_truthy_def mutation_def rollover_db_def ledger_defs

lemma allocation_ops_run:
  "balance_of 7 (run_ops (take 1 allocation_ops) (rollover_db (Some (Fin 5000)) (Fin 8000)))
     = Fin 23000"
  "balance_of 7 (run_ops (take 3 allocation_ops) (rollover_db (Some (Fin 5000)) (Fin 8000)))
     = Fin 20500"
  "js_lt (balance_of 7 (rollover_db (Some (Fin 5000)) (Fin 8000))) (Fin 99999)"
  "\<not> isl (fst (deductCredits 7 (Fin 3000) ''deployment usage'' None None None 20
        (rollover_db (Some (Fin 5000)) (Fin 8000))))"
  "js_sub (balance_of 7 (rollover_db (Some (Fin 5000)) (Fin 8000))) (Fin 3000) = Fin 5000"
  by (simp_all add: allocation_ops_def allocate_defs)

lemma sample_db_grant:
  "addCredits 7 (Fin 100) Bonus ''welcome'' None None 10 sample_db =
     (Inr (Fin 250),
      sample_db\<lparr>creditBalances :=
          [sample_balance\<lparr>balance := Fin 250, lifetimeEarned := Fin 300, cb_updatedAt := 10\<rparr>],
        creditTransactions := creditTransactions sample_db @
          [\<lparr>tx_memberId = 7, tx_amount = Fin 100, balanceAfter = Fin 250, tx_type = Bonus,
            tx_description = ''welcome'', tx_subscriptionId = None, tx_chatId = None,
            tx_usageRecordId = None, tx_metadata = None, tx_createdAt = 10\<rparr>]\<rparr>)"
  by (simp add: ledger_defs)

subsection \<open>Monthly allocation with rollover\<close>

text \<open>With rollover on, a positive balance and a cap that is unset or truthy, the grant is
  \<open>monthlyCredits + Math.min(balance, cap)\<close>, the cap defaulting to \<open>monthlyCredits\<close>, and it
  is added to the balance as it stands. The example is the Starter plan: 10000 monthly
  credits, a cap of 5000 and a balance of 8000 give a grant of 15000 and a balance of 23000.\<close>

lemma balance_of_add_present:
  assumes "query_first (\<lambda>b. cb_memberId b = m) (creditBalances d) = Some (i, b0)"
  shows "balance_of m (snd (addCredits m a ty ds sid md now d)) = js_add (balance b0) a"
proof -
  have "query_first (\<lambda>b. cb_memberId b = m) ((creditBalances d)
            [i := b0\<lparr>balance := js_add (balance b0) a,
                     lifetimeEarned := js_add (lifetimeEarned b0) a, cb_updatedAt := now\<rparr>])
          = Some (i, b0\<lparr>balance := js_add (balance b0) a,
                     lifetimeEarned := js_add (lifetimeEarned b0) a, cb_updatedAt := now\<rparr>)"
    using assms query_first_row(4) [OF assms] by (intro query_first_update_same) simp_all
  then show ?thesis
    by (simp add: addCredits_present [OF assms] balance_of_def getCreditBalance_def)
qed

lemma allocateMonthlyCredits_rollover:
  assumes sub: "db_get (subscriptions d) sid = Some sub"
    and plan: "db_get (subscriptionPlans d) (planId sub) = Some plan"
    and roll: "rolloverCredits plan"
    and q: "query_first (\<lambda>b. cb_memberId b = m) (creditBalances d) = Some (i, b0)"
    and pos: "js_lt (Fin 0) (balance b0)"
    and cap: "case maxRolloverCredits plan of None \<Rightarrow> True | Some c \<Rightarrow> js_truthy c"
  shows "fst (allocateMonthlyCredits m sid now d) = Inr ()"
    and "balance_of m (snd (allocateMonthlyCredits m sid now d)) =
      js_add (balance b0) (js_add (monthlyCredits plan)
        (js_min (balance b0)
          (case maxRolloverCredits plan of None \<Rightarrow> monthlyCredits plan | Some c \<Rightarrow> c)))"
proof -
  define grant where "grant = js_add (monthlyCredits plan)
        (js_min (balance b0)
          (case maxRolloverCredits plan of None \<Rightarrow> monthlyCredits plan | Some c \<Rightarrow> c))"
  have c: "creditsToAdd plan (Some (i, b0)) = grant"
    using roll pos cap by (simp add: creditsToAdd_def js_or_def grant_def split: option.splits)
  have r: "allocateMonthlyCredits m sid now d =
      (case addCredits m grant MonthlyAllocation
         (''Monthly credit allocation for '' @ displayName plan @ '' plan'') (Some sid) None
         now d of (Inl e, d1) \<Rightarrow> (Inl e, d1) | (Inr r, d1) \<Rightarrow> (Inr (), d1))"
    by (simp add: allocateMonthlyCredits_def sub plan q c mutation_addCredits Let_def)
  show "fst (allocateMonthlyCredits m sid now d) = Inr ()"
    by (simp add: r addCredits_present [OF q])
  have "snd (allocateMonthlyCredits m sid now d) =
      snd (addCredits m grant MonthlyAllocation
        (''Monthly credit allocation for '' @ displayName plan @ '' plan'') (Some sid) None
        now d)"
    by (simp add: r addCredits_present [OF q])
  then have "balance_of m (snd (allocateMonthlyCredits m sid now d))
      = js_add (balance b0) grant"
    by (simp only: balance_of_add_present [OF q])
  then show "balance_of m (snd (allocateMonthlyCredits m sid now d)) =
      js_add (balance b0) (js_add (monthlyCredits plan)
        (js_min (balance b0)
          (case maxRolloverCredits plan of None \<Rightarrow> monthlyCredits plan | Some c \<Rightarrow> c)))"
    by (simp only: grant_def)
qed

lemma allocateMonthlyCredits_example:
  "creditsToAdd (subscriptionPlans (rollover_db (Some (Fin 5000)) (Fin 8000)) ! 0)
     (query_first (\<lambda>b. cb_memberId b = 7)
       (creditBalances (rollover_db (Some (Fin 5000)) (Fin 8000))))
     = Fin 15000"
  "balance_of 7 (snd (allocateMonthlyCredits 7 0 100 (rollover_db (Some (Fin 5000)) (Fin 8000))))
     = Fin 23000"
  by (simp_all add: allocate_defs)

subsection \<open>Subscriptions\<close>

lemma cancel_existing_enumerate:
  "cancel_existing (filter (\<lambda>(i, r). P r) (enumerate (length pre) xs)) now (pre @ xs) =
     (Inr (), pre @ map (\<lambda>s. if P s then s\<lparr>status := Cancelled, sub_updatedAt := now\<rparr> else s) xs)"
proof (induction xs arbitrary: pre)
  case Nil
  then show ?case by simp
next
  case (Cons x xs)
  show ?case
  proof (cases "P x")
    case True
    have "cancel_existing (filter (\<lambda>(i, r). P r) (enumerate (length pre) (x # xs))) now
            (pre @ x # xs) =
          cancel_existing (filter (\<lambda>(i, r). P r)
              (enumerate (length (pre @ [x\<lparr>status := Cancelled, sub_updatedAt := now\<rparr>])) xs))
            now ((pre @ [x\<lparr>status := Cancelled, sub_updatedAt := now\<rparr>]) @ xs)"
      using True by (simp add: db_patch_def)
    then show ?thesis using True by (simp only: Cons.IH) simp
  next
    case False
    have "cancel_existing (filter (\<lambda>(i, r). P r) (enumerate (length pre) (x # xs))) now
            (pre @ x # xs) =
          cancel_existing (filter (\<lambda>(i, r). P r) (enumerate (length (pre @ [x])) xs))
            now ((pre @ [x]) @ xs)"
      using False by simp
    then show ?thesis using False by (simp only: Cons.IH) simp
  qed
qed

lemma cancel_existing_query:
  "cancel_existing (query_collect P tbl) now tbl =
     (Inr (), map (\<lambda>s. if P s then s\<lparr>status := Cancelled, sub_updatedAt := now\<rparr> else s) tbl)"
  using cancel_existing_enumerate [of P "[]" tbl now] by (simp add: query_collect_def)

lemma no_active_after_cancel:
  "filter (\<lambda>s. sub_memberId s = m \<and> status s = Active)
     (map (\<lambda>s. if sub_memberId s = m \<and> status s = Active
                then s\<lparr>status := Cancelled, sub_updatedAt := now\<rparr> else s) tbl) = []"
  by (induction tbl) auto

lemma createSubscription_found:
  assumes "db_get (subscriptionPlans d) pid = Some plan"
  shows "createSubscription m pid period ssid scid trialDays now d =
        (Inr (length (subscriptions d)),
         d\<lparr>subscriptions :=
             map (\<lambda>s. if sub_memberId s = m \<and> status s = Active
                       then s\<lparr>status := Cancelled, sub_updatedAt := now\<rparr> else s)
               (subscriptions d) @
             [\<lparr>sub_memberId = m, planId = pid,
               status = (if truthy_num trialDays \<and> now \<noteq> 0 then Trialing else Active),
               billingPeriod = period, currentPeriodStart = now,
               currentPeriodEnd =
                 now + (if period = Monthly then 30 else 365) * 24 * 60 * 60 * 1000,
               cancelAtPeriodEnd = False, stripeSubscriptionId = ssid,
               stripeCustomerId = scid,
               trialStart = (if truthy_num trialDays then Some now else None),
               trialEnd = (if truthy_num trialDays
                           then map_option (\<lambda>n. now + n * 24 * 60 * 60 * 1000) trialDays
                           else None),
               sub_createdAt = now, sub_updatedAt = now\<rparr>],
           scheduled := scheduled d @ [(m, length (subscriptions d))]\<rparr>)"
  using assms
  by (cases trialDays)
    (simp_all add: createSubscription_def cancel_existing_query db_insert_def Let_def
      truthy_num_def)

lemma deductCredits_reads_balances:
  assumes "creditBalances d' = creditBalances d"
  shows "fst (deductCredits m a ds cid uid md now d') = fst (deductCredits m a ds cid uid md now d)"
proof (cases rule: addCredits_cases [of m d])
  case absent
  then have "query_first (\<lambda>b. cb_memberId b = m) (creditBalances d') = None"
    using assms by simp
  then show ?thesis using absent by (simp add: deductCredits_fail)
next
  case (present i b0)
  then have q: "query_first (\<lambda>b. cb_memberId b = m) (creditBalances d') = Some (i, b0)"
    using assms by simp
  show ?thesis
  proof (cases "js_lt (balance b0) a")
    case True
    then show ?thesis using present q by (simp add: deductCredits_fail)
  next
    case False
    then show ?thesis
      by (simp add: deductCredits_ok [OF present False] deductCredits_ok [OF q False])
  qed
qed

lemmas subscription_defs = createSubscription_def cancelSubscription_def
  updateSubscriptionStatus_def query_collect_def truthy_num_def rollover_db_def ledger_defs

lemma rollover_db_entries:
  "db_get (subscriptionPlans (rollover_db cap bal)) 0 =
     Some \<lparr>displayName = ''Starter'', monthlyCredits = Fin 10000, rolloverCredits = True,
           maxRolloverCredits = cap\<rparr>"
  "db_get (subscriptions (rollover_db cap bal)) 0 =
     Some \<lparr>sub_memberId = 7, planId = 0, status = Active, billingPeriod = Monthly,
          currentPeriodStart = 0, currentPeriodEnd = 2592000000, cancelAtPeriodEnd = False,
          stripeSubscriptionId = None, stripeCustomerId = None, trialStart = None,
          trialEnd = None, sub_createdAt = 0, sub_updatedAt = 0\<rparr>"
  by (simp_all add: db_get_def rollover_db_def empty_db_def)

subsection \<open>Usage recording\<close>

lemma failure_metadata_marks:
  "\<exists>kvs. failure_metadata metadata err = JObj kvs
     \<and> map_of kvs ''creditDeductionFailed'' = Some (JBool True)
     \<and> map_of kvs ''error'' = Some (JStr (String_of_error err))"
  by (simp add: failure_metadata_def update_conv')

lemma deductCredits_usageRecords:
  "usageRecords (snd (deductCredits m a ds cid uid md now d)) = usageRecords d"
  by (cases rule: deductCredits_cases [of m a ds cid uid md now d])
    (simp_all add: deductCredits_ok)

text \<open>What the handler of \<open>recordUsage\<close> writes: one usage record, which it patches with the
  failure when the deduction throws, before it throws the error again.\<close>

lemma recordUsage_handler_refused:
  assumes "isl (fst (deductCredits m cost (resource_name rtype @ '' usage'') chatId
      (Some (length (usageRecords d))) metadata now2
      (d\<lparr>usageRecords := usageRecords d @
         [\<lparr>ur_memberId = m, ur_chatId = chatId, resourceType = rtype,
           quantity = qty, creditCost = cost, modelId = model, promptTokens = pTokens,
           completionTokens = cTokens, cachedPromptTokens = cachedTokens,
           apiIntegrationId = integrationId, ur_metadata = metadata, timestamp = now\<rparr>]\<rparr>)))"
  shows "recordUsage_handler m chatId rtype qty cost model pTokens cTokens cachedTokens
      integrationId metadata now now2 d =
    (Inl (Error ''Insufficient credits''),
     d\<lparr>usageRecords := usageRecords d @
         [\<lparr>ur_memberId = m, ur_chatId = chatId, resourceType = rtype,
           quantity = qty, creditCost = cost, modelId = model, promptTokens = pTokens,
           completionTokens = cTokens, cachedPromptTokens = cachedTokens,
           apiIntegrationId = integrationId,
           ur_metadata = Some (failure_metadata metadata (Error ''Insufficient credits'')),
           timestamp = now\<rparr>]\<rparr>)"
proof -
  define d1 where "d1 = d\<lparr>usageRecords := usageRecords d @
         [\<lparr>ur_memberId = m, ur_chatId = chatId, resourceType = rtype,
           quantity = qty, creditCost = cost, modelId = model, promptTokens = pTokens,
           completionTokens = cTokens, cachedPromptTokens = cachedTokens,
           apiIntegrationId = integrationId, ur_metadata = metadata, timestamp = now\<rparr>]\<rparr>"
  have "deductCredits m cost (resource_name rtype @ '' usage'') chatId
      (Some (length (usageRecords d))) metadata now2 d1 = (Inl (Error ''Insufficient credits''), d1)"
    by (cases rule: deductCredits_cases [of m cost "resource_name rtype @ '' usage''" chatId
          "Some (length (usageRecords d))" metadata now2 d1])
      (use assms in \<open>simp_all add: d1_def [symmetric] deductCredits_ok\<close>)
  then show ?thesis
    by (simp add: recordUsage_handler_def db_insert_def mutation_deductCredits
        d1_def [symmetric])
      (simp add: d1_def db_patch_def)
qed

lemma recordUsage_refused:
  assumes "isl (fst (deductCredits m cost (resource_name rtype @ '' usage'') chatId
      (Some (length (usageRecords d))) metadata now2
      (d\<lparr>usageRecords := usageRecords d @
         [\<lparr>ur_memberId = m, ur_chatId = chatId, resourceType = rtype,
           quantity = qty, creditCost = cost, modelId = model, promptTokens = pTokens,
           completionTokens = cTokens, cachedPromptTokens = cachedTokens,
           apiIntegrationId = integrationId, ur_metadata = metadata, timestamp = now\<rparr>]\<rparr>)))"
  shows "recordUsage m chatId rtype qty cost model pTokens cTokens cachedTokens
      integrationId metadata now now2 d = (Inl (Error ''Insufficient credits''), d)"
  by (simp add: recordUsage_def mutation_def recordUsage_handler_refused [OF assms])

lemma recordUsage_charged:
  assumes "fst (deductCredits m cost (resource_name rtype @ '' usage'') chatId
      (Some (length (usageRecords d))) metadata now2
      (d\<lparr>usageRecords := usageRecords d @
         [\<lparr>ur_memberId = m, ur_chatId = chatId, resourceType = rtype,
           quantity = qty, creditCost = cost, modelId = model, promptTokens = pTokens,
           completionTokens = cTokens, cachedPromptTokens = cachedTokens,
           apiIntegrationId = integrationId, ur_metadata = metadata, timestamp = now\<rparr>]\<rparr>))
      = Inr nb"
  shows "fst (recordUsage m chatId rtype qty cost model pTokens cTokens cachedTokens
      integrationId metadata now now2 d) = Inr (length (usageRecords d))"
    and "usageRecords (snd (recordUsage m chatId rtype qty cost model pTokens cTokens
      cachedTokens integrationId metadata now now2 d)) = usageRecords d @
         [\<lparr>ur_memberId = m, ur_chatId = chatId, resourceType = rtype,
           quantity = qty, creditCost = cost, modelId = model, promptTokens = pTokens,
           completionTokens = cTokens, cachedPromptTokens = cachedTokens,
           apiIntegrationId = integrationId, ur_metadata = metadata, timestamp = now\<rparr>]"
proof -
  define d1 where "d1 = d\<lparr>usageRecords := usageRecords d @
         [\<lparr>ur_memberId = m, ur_chatId = chatId, resourceType = rtype,
           quantity = qty, creditCost = cost, modelId = model, promptTokens = pTokens,
           completionTokens = cTokens, cachedPromptTokens = cachedTokens,
           apiIntegrationId = integrationId, ur_metadata = metadata, timestamp = now\<rparr>]\<rparr>"
  define r where "r = deductCredits m cost (resource_name rtype @ '' usage'') chatId
      (Some (length (usageRecords d))) metadata now2 d1"
  have f: "fst r = Inr nb" using assms by (simp add: r_def d1_def)
  then obtain d2 where r2: "r = (Inr nb, d2)" by (cases r) auto
  have u: "usageRecords d2 = usageRecords d1"
    using deductCredits_usageRecords [of m cost "resource_name rtype @ '' usage''" chatId
        "Some (length (usageRecords d))" metadata now2 d1] r2 by (simp add: r_def)
  have h: "recordUsage_handler m chatId rtype qty cost model pTokens cTokens cachedTokens
      integrationId metadata now now2 d = (Inr (length (usageRecords d)), d2)"
    using r2
    by (simp add: recordUsage_handler_def db_insert_def mutation_deductCredits
        d1_def [symmetric] r_def [symmetric])
  show "fst (recordUsage m chatId rtype qty cost model pTokens cTokens cachedTokens
      integrationId metadata now now2 d) = Inr (length (usageRecords d))"
    by (simp add: recordUsage_def mutation_def h)
  show "usageRecords (snd (recordUsage m chatId rtype qty cost model pTokens cTokens
      cachedTokens integrationId metadata now now2 d)) = usageRecords d @
         [\<lparr>ur_memberId = m, ur_chatId = chatId, resourceType = rtype,
           quantity = qty, creditCost = cost, modelId = model, promptTokens = pTokens,
           completionTokens = cTokens, cachedPromptTokens = cachedTokens,
           apiIntegrationId = integrationId, ur_metadata = metadata, timestamp = now\<rparr>]"
    by (simp add: recordUsage_def mutation_def h u) (simp add: d1_def)
qed

lemmas usage_defs = recordUsage_def recordUsage_handler_def mutation_def failure_metadata_def
  spread_def ledger_defs

subsection \<open>Mutations that throw before their first write\<close>

text \<open>The subscription handlers throw only before they have written anything, so as
  mutations they commit what the handler has written.\<close>

lemma mutation_updateSubscriptionStatus:
  "mutation (updateSubscriptionStatus sid st cape now) d = updateSubscriptionStatus sid st cape now d"
  by (simp add: mutation_def updateSubscriptionStatus_def split: sum.splits)

lemma mutation_cancelSubscription:
  "mutation (cancelSubscription sid immediate now) d = cancelSubscription sid immediate now d"
  by (simp add: mutation_def cancelSubscription_def split: sum.splits option.splits)

lemma mutation_createSubscription:
  "mutation (createSubscription m pid period ssid scid trialDays now) d
     = createSubscription m pid period ssid scid trialDays now d"
proof (cases "db_get (subscriptionPlans d) pid")
  case None
  then show ?thesis by (simp add: mutation_def createSubscription_def)
next
  case (Some plan)
  then show ?thesis by (simp add: mutation_def createSubscription_found)
qed

section \<open>The claims\<close>

text \<open>
  C1, as the code has it. Credits are doubles, so a sum is exact only while it is an integer
  of magnitude at most \<open>2 ^ 53\<close>. Take a database whose balance documents hold integer
  counters of magnitude at most \<open>K\<close> with \<open>balance = lifetimeEarned - lifetimeSpent\<close> (the
  empty database is one, with \<open>K = 0\<close>), and a sequence of \<open>addCredits\<close> and \<open>deductCredits\<close>
  calls, for any members, whose amounts are integers with \<open>K\<close> plus the sum of their
  magnitudes at most \<open>2 ^ 53\<close>. Then after every operation of the sequence every balance
  document satisfies \<open>balance = lifetimeEarned - lifetimeSpent\<close>, and so does what
  \<open>getCreditBalance\<close> returns for any member. The first grant to a member creates the
  document with \<open>balance = lifetimeEarned = amount\<close> and \<open>lifetimeSpent = 0\<close>.
\<close>

theorem balance_is_earned_minus_spent:
  assumes "list_all (doc_exact K) (creditBalances d)" and "0 \<le> K"
    and "list_all integer_op ops" and "K + total_magnitude ops \<le> 2 ^ 53"
  shows "ledger_consistent (run_ops (take k ops) d)
     \<and> (case getCreditBalance m (run_ops (take k ops) d) of (b, e, s) \<Rightarrow> b = js_sub e s)"
proof -
  have 1: "list_all integer_op (take k ops)"
    using assms(3) by (auto simp: list_all_iff dest: in_set_takeD)
  have 2: "K + total_magnitude (take k ops) \<le> 2 ^ 53"
    using assms(4) total_magnitude_take [of k ops] by linarith
  have "list_all (doc_exact (K + total_magnitude (take k ops)))
      (creditBalances (run_ops (take k ops) d))"
    using assms(1,2) 1 2 by (rule run_ops_exact)
  then have "ledger_consistent (run_ops (take k ops) d)"
    using 2 by (auto simp: ledger_consistent_def list_all_iff intro: doc_exact_consistent)
  then show ?thesis by (simp add: getCreditBalance_consistent)
qed

text \<open>The theorem on the sample run, from the sample database and from the empty database,
  where the first grant creates the balance document.\<close>

theorem balance_is_earned_minus_spent_witness:
  "list_all (doc_exact 200) (creditBalances sample_db)
   \<and> list_all integer_op sample_ops \<and> 200 + total_magnitude sample_ops \<le> 2 ^ 53
   \<and> ledger_consistent (run_ops (take 3 sample_ops) sample_db)
   \<and> getCreditBalance 7 (run_ops (take 3 sample_ops) sample_db) = (Fin 220, Fin 300, Fin 80)
   \<and> ledger_consistent (run_ops (take 1 sample_ops) empty_db)
   \<and> getCreditBalance 7 (run_ops (take 1 sample_ops) empty_db) = (Fin 100, Fin 100, Fin 0)"
proof -
  have b: "200 + total_magnitude sample_ops \<le> 2 ^ 53" "0 + total_magnitude sample_ops \<le> 2 ^ 53"
    by (simp_all add: sample_ops_integer(2))
  from balance_is_earned_minus_spent [OF sample_ops_integer(3) _ sample_ops_integer(1) b(1),
      of 3 7]
    balance_is_earned_minus_spent [OF sample_ops_integer(4) _ sample_ops_integer(1) b(2),
      of 1 7]
    sample_ops_integer b sample_ops_balance
  show ?thesis by simp
qed

text \<open>
  C1 as stated holds for every sequence. After a grant of 1, a deduction of 1 and a grant of
  \<open>2 ^ 53\<close> to a new member the balance is \<open>2 ^ 53\<close>, \<open>lifetimeEarned\<close> is \<open>2 ^ 53\<close> too
  (\<open>1 + 2 ^ 53\<close> is not a double and rounds to \<open>2 ^ 53\<close>) and \<open>lifetimeSpent\<close> is 1, so
  \<open>lifetimeEarned - lifetimeSpent\<close> is \<open>2 ^ 53 - 1\<close>, not the balance.
\<close>

theorem balance_rounding_counterexample:
  "getCreditBalance 7 (run_ops rounding_ops empty_db)
     = (Fin 9007199254740992, Fin 9007199254740992, Fin 1)
   \<and> js_sub (Fin 9007199254740992) (Fin 1) = Fin 9007199254740991
   \<and> \<not> (case getCreditBalance 7 (run_ops rounding_ops empty_db) of
          (b, e, s) \<Rightarrow> b = js_sub e s)"
  by (simp add: rounding_ops_balance) (simp add: js_sub_def round_double_Ints)

text \<open>
  C2. \<open>deductCredits\<close> throws "Insufficient credits" exactly when the member has no balance
  document or the balance is strictly below the amount. It throws nothing else, and when it
  throws the database is as it was: the balance document keeps \<open>balance\<close>,
  \<open>lifetimeEarned\<close> and \<open>lifetimeSpent\<close>, and no transaction is appended.
\<close>

theorem deductCredits_insufficient:
  "((fst (deductCredits m a ds cid uid md now d) = Inl (Error ''Insufficient credits'')) =
      (case query_first (\<lambda>b. cb_memberId b = m) (creditBalances d) of
         None \<Rightarrow> True
       | Some (i, b0) \<Rightarrow> js_lt (balance b0) a))
   \<and> (isl (fst (deductCredits m a ds cid uid md now d)) \<longrightarrow>
         deductCredits m a ds cid uid md now d = (Inl (Error ''Insufficient credits''), d))"
proof (cases rule: addCredits_cases [of m d])
  case absent
  then show ?thesis by (simp add: deductCredits_fail)
next
  case (present i b0)
  show ?thesis
  proof (cases "js_lt (balance b0) a")
    case True
    then show ?thesis using present by (simp add: deductCredits_fail)
  next
    case False
    then show ?thesis using present deductCredits_ok [of m d i b0 a] by simp
  qed
qed

text \<open>The theorem at a balance of 150 and a deduction of 200.\<close>

theorem deductCredits_insufficient_witness:
  "isl (fst (deductCredits 7 (Fin 200) ''api_call usage'' None None None 5
         (empty_db\<lparr>creditBalances := [sample_balance]\<rparr>)))
   \<and> deductCredits 7 (Fin 200) ''api_call usage'' None None None 5
         (empty_db\<lparr>creditBalances := [sample_balance]\<rparr>)
       = (Inl (Error ''Insufficient credits''), empty_db\<lparr>creditBalances := [sample_balance]\<rparr>)"
  using deductCredits_insufficient [of 7 "Fin 200" "''api_call usage''" None None None 5
         "empty_db\<lparr>creditBalances := [sample_balance]\<rparr>"]
  by (simp add: query_first_def sample_balance_def empty_db_def)

text \<open>
  C3, as the code has it. No handler checks an amount. From any database whose balances are
  zero or more, after every operation of every sequence of ledger operations in which each
  \<open>addCredits\<close> amount is zero or more, each \<open>deductCredits\<close> amount is finite, and each plan's
  \<open>monthlyCredits\<close> and \<open>maxRolloverCredits\<close> (when set) are zero or more, every balance is
  zero or more. A \<open>deductCredits\<close> of more than the balance is refused and changes nothing;
  one that succeeds leaves the double \<open>balance - amount\<close>, so nothing is clamped.
\<close>

theorem balance_never_negative:
  assumes "balances_nonneg d" and "plans_nonneg d" and "list_all op_nonneg ops"
  shows "balances_nonneg (run_ops (take k ops) d)
     \<and> js_nonneg (balance_of m (run_ops (take k ops) d))
     \<and> (js_lt (balance_of m d) a \<longrightarrow>
          deductCredits m a ds cid uid md now d = (Inl (Error ''Insufficient credits''), d))
     \<and> (\<not> isl (fst (deductCredits m a' ds' cid' uid' md' now' d)) \<longrightarrow>
          balance_of m (snd (deductCredits m a' ds' cid' uid' md' now' d))
            = js_sub (balance_of m d) a')"
proof -
  have "list_all op_nonneg (take k ops)"
    using assms(3) by (auto simp: list_all_iff dest: in_set_takeD)
  then have "balances_nonneg (run_ops (take k ops) d)"
    using assms(1,2) by (intro run_ops_nonneg)
  then show ?thesis
    by (simp add: balance_of_nonneg deductCredits_below deductCredits_difference)
qed

text \<open>The theorem on a monthly allocation, a deduction and a grant for member 7: a deduction
  of 99999 from the balance of 8000 is refused, a deduction of 3000 is applied.\<close>

theorem balance_never_negative_witness:
  "balances_nonneg (rollover_db (Some (Fin 5000)) (Fin 8000))
   \<and> plans_nonneg (rollover_db (Some (Fin 5000)) (Fin 8000))
   \<and> list_all op_nonneg allocation_ops
   \<and> balances_nonneg (run_ops (take 3 allocation_ops) (rollover_db (Some (Fin 5000)) (Fin 8000)))
   \<and> balance_of 7 (run_ops (take 3 allocation_ops) (rollover_db (Some (Fin 5000)) (Fin 8000)))
       = Fin 20500
   \<and> js_lt (balance_of 7 (rollover_db (Some (Fin 5000)) (Fin 8000))) (Fin 99999)
   \<and> deductCredits 7 (Fin 99999) ''deployment usage'' None None None 30
         (rollover_db (Some (Fin 5000)) (Fin 8000))
       = (Inl (Error ''Insufficient credits''), rollover_db (Some (Fin 5000)) (Fin 8000))
   \<and> \<not> isl (fst (deductCredits 7 (Fin 3000) ''deployment usage'' None None None 20
        (rollover_db (Some (Fin 5000)) (Fin 8000))))
   \<and> balance_of 7 (snd (deductCredits 7 (Fin 3000) ''deployment usage'' None None None 20
        (rollover_db (Some (Fin 5000)) (Fin 8000)))) = Fin 5000"
  using balance_never_negative [OF sample_db_nonneg,
      where k = 3 and m = 7 and a = "Fin 99999" and ds = "''deployment usage''" and cid = None
        and uid = None and md = None and now = 30 and a' = "Fin 3000"
        and ds' = "''deployment usage''" and cid' = None and uid' = None and md' = None
        and now' = 20]
    sample_db_nonneg allocation_ops_run
  by simp

text \<open>
  C3 as stated covers every amount \<open>addCredits\<close> accepts. It accepts \<open>-5\<close> for a member without
  a balance document, and the member's balance is then \<open>-5\<close>.
\<close>

theorem negative_grant_counterexample:
  "fst (addCredits 7 (Fin (- 5)) Refund ''chargeback'' None None 1000 empty_db)
     = Inr (Fin (- 5))
   \<and> balance_of 7
        (run_ops [(1000, OpAdd 7 (Fin (- 5)) Refund ''chargeback'' None None)] empty_db)
       = Fin (- 5)
   \<and> \<not> js_nonneg (Fin (- 5))"
  by (simp add: ledger_defs)

text \<open>
  C4, as the code has it. From any database in which every member's ledger matches the log
  and every \<open>balanceAfter\<close> is the running sum of its member's amounts (the empty database is
  one), both hold again after every sequence of \<open>addCredits\<close>, \<open>deductCredits\<close> and
  \<open>allocateMonthlyCredits\<close> calls, for any members: the balance of a member is the sum of the
  amounts of the member's transactions, added as doubles in creation order. Each
  \<open>addCredits\<close> appends one transaction of amount \<open>+amount\<close> and each successful
  \<open>deductCredits\<close> one of amount \<open>-amount\<close>, whose \<open>balanceAfter\<close> is the member's balance in the
  database the call leaves.
\<close>

theorem balance_reconciles_with_transactions:
  assumes "\<forall>m. ledger_matches m d" and "snapshots_ok (creditTransactions d)"
  shows "(\<forall>m. ledger_matches m (run_ops ops d))
     \<and> (\<forall>m. balance_of m (run_ops ops d) = tx_sum m (creditTransactions (run_ops ops d)))
     \<and> snapshots_ok (creditTransactions (run_ops ops d))
     \<and> (\<exists>t. creditTransactions (snd (addCredits m a ty ds sid md now d))
               = creditTransactions d @ [t]
            \<and> tx_memberId t = m \<and> tx_amount t = a
            \<and> balanceAfter t = balance_of m (snd (addCredits m a ty ds sid md now d)))
     \<and> (\<not> isl (fst (deductCredits m a ds cid uid md now d)) \<longrightarrow>
          (\<exists>t. creditTransactions (snd (deductCredits m a ds cid uid md now d))
               = creditTransactions d @ [t]
            \<and> tx_memberId t = m \<and> tx_amount t = js_neg a
            \<and> balanceAfter t = balance_of m (snd (deductCredits m a ds cid uid md now d))))"
proof -
  note r = run_ops_reconciled [OF assms, of ops]
  have "\<forall>m. balance_of m (run_ops ops d) = tx_sum m (creditTransactions (run_ops ops d))"
    using r by (simp add: matches_balance_of)
  moreover have "\<exists>t. creditTransactions (snd (addCredits m a ty ds sid md now d))
               = creditTransactions d @ [t]
            \<and> tx_memberId t = m \<and> tx_amount t = a
            \<and> balanceAfter t = balance_of m (snd (addCredits m a ty ds sid md now d))"
    using addCredits_log [of m a ty ds sid md now d] by blast
  moreover have "\<not> isl (fst (deductCredits m a ds cid uid md now d)) \<longrightarrow>
          (\<exists>t. creditTransactions (snd (deductCredits m a ds cid uid md now d))
               = creditTransactions d @ [t]
            \<and> tx_memberId t = m \<and> tx_amount t = js_neg a
            \<and> balanceAfter t = balance_of m (snd (deductCredits m a ds cid uid md now d)))"
    using deductCredits_log [of m a ds cid uid md now d] by blast
  ultimately show ?thesis using r by blast
qed

text \<open>The theorem on the sample database and the sample run.\<close>

theorem balance_reconciles_with_transactions_witness:
  "(\<forall>m. ledger_matches m sample_db)
   \<and> snapshots_ok (creditTransactions sample_db)
   \<and> balance_of 7 (run_ops sample_ops sample_db)
       = tx_sum 7 (creditTransactions (run_ops sample_ops sample_db))
   \<and> snapshots_ok (creditTransactions (run_ops sample_ops sample_db))
   \<and> balance_of 7 (run_ops sample_ops sample_db) = Fin 220
   \<and> map tx_amount (creditTransactions (run_ops sample_ops sample_db))
       = [Fin 200, Fin (- 50), Fin 100, Fin (- 30)]
   \<and> \<not> isl (fst (deductCredits 7 (Fin 30) ''api_call usage'' None None None 20 sample_db))
   \<and> (\<exists>t. creditTransactions (snd (deductCredits 7 (Fin 30) ''api_call usage'' None None None
               20 sample_db)) = creditTransactions sample_db @ [t]
          \<and> tx_amount t = Fin (- 30) \<and> balanceAfter t = Fin 120)"
  using balance_reconciles_with_transactions [OF sample_db_reconciled,
      where ops = sample_ops and m = 7 and a = "Fin 30" and ds = "''api_call usage''"
        and cid = None and uid = None and md = None and now = 20 and ty = Bonus
        and sid = None]
    sample_db_reconciled sample_db_run
  by auto

text \<open>
  C4 as stated takes the sum of the amounts. After grants of \<open>2 ^ 53\<close> and of 1 to a new member
  the amounts are \<open>2 ^ 53\<close> and 1, and the balance is \<open>2 ^ 53\<close>, not \<open>2 ^ 53 + 1\<close>.
\<close>

theorem balance_exact_sum_counterexample:
  "map tx_amount (creditTransactions (run_ops large_ops empty_db))
     = [Fin 9007199254740992, Fin 1]
   \<and> balance_of 7 (run_ops large_ops empty_db) = Fin 9007199254740992
   \<and> balance_of 7 (run_ops large_ops empty_db) \<noteq> Fin (9007199254740992 + 1)"
  by (simp add: large_ops_run)

text \<open>
  C5, as the code has it. \<open>addCredits\<close> checks nothing about the amount and never throws, for
  any number. It returns the new balance; when the member has no balance document it
  creates one with \<open>balance = lifetimeEarned = amount\<close> and \<open>lifetimeSpent = 0\<close>, otherwise it
  replaces \<open>balance\<close> and \<open>lifetimeEarned\<close> of the member's document by their sums with the
  amount, as doubles; in both cases it appends one transaction whose amount is the amount
  and whose \<open>balanceAfter\<close> is the returned balance. The sum of a counter and an amount that
  are integers is their exact sum when its magnitude is at most \<open>2 ^ 53\<close>.
\<close>

theorem addCredits_never_fails:
  "(let prior = query_first (\<lambda>b. cb_memberId b = m) (creditBalances d);
        newBalance = (case prior of None \<Rightarrow> a | Some (i, b0) \<Rightarrow> js_add (balance b0) a);
        (res, d') = addCredits m a ty ds sid md now d
    in res = Inr newBalance
       \<and> creditBalances d' =
           (case prior of
              None \<Rightarrow> creditBalances d @
                [\<lparr>cb_memberId = m, balance = a, lifetimeEarned = a, lifetimeSpent = Fin 0,
                  lastResetAt = now, cb_updatedAt = now\<rparr>]
            | Some (i, b0) \<Rightarrow> (creditBalances d)
                [i := b0\<lparr>balance := js_add (balance b0) a,
                         lifetimeEarned := js_add (lifetimeEarned b0) a,
                         cb_updatedAt := now\<rparr>])
       \<and> creditTransactions d' = creditTransactions d @
            [\<lparr>tx_memberId = m, tx_amount = a, balanceAfter = newBalance, tx_type = ty,
              tx_description = ds, tx_subscriptionId = sid, tx_chatId = None,
              tx_usageRecordId = None, tx_metadata = md, tx_createdAt = now\<rparr>])
   \<and> (int_of x = Some n \<and> int_of a = Some k \<and> \<bar>n + k\<bar> \<le> 2 ^ 53 \<longrightarrow>
        js_add x a = Fin (of_int (n + k)))"
proof -
  have "int_of x = Some n \<and> int_of a = Some k \<and> \<bar>n + k\<bar> \<le> 2 ^ 53 \<longrightarrow>
        js_add x a = Fin (of_int (n + k))"
  proof (intro impI, elim conjE)
    assume "int_of x = Some n" "int_of a = Some k" "\<bar>n + k\<bar> \<le> 2 ^ 53"
    then show "js_add x a = Fin (of_int (n + k))"
      by (simp only: int_of_Some js_add_int)
  qed
  then show ?thesis
    by (cases rule: addCredits_cases [of m d])
      (simp_all add: addCredits_absent addCredits_present)
qed

text \<open>The theorem for a grant of 100 to member 7 of the sample database, whose balance is
  150.\<close>

theorem addCredits_never_fails_witness:
  "int_of (Fin 150) = Some 150 \<and> int_of (Fin 100) = Some 100
   \<and> \<bar>150 + 100 :: int\<bar> \<le> 2 ^ 53
   \<and> js_add (Fin 150) (Fin 100) = Fin 250
   \<and> fst (addCredits 7 (Fin 100) Bonus ''welcome'' None None 10 sample_db) = Inr (Fin 250)"
  using addCredits_never_fails [of 7 sample_db "Fin 100" Bonus "''welcome''" None None 10
      "Fin 150" 150 100]
  by (simp add: int_of_def sample_db_grant)

text \<open>
  C5 as stated says that a non-positive amount is refused. An amount of \<open>-5\<close> for a member
  without a balance document is accepted: the call returns \<open>-5\<close> and writes both documents.
\<close>

theorem addCredits_nonpositive_counterexample:
  "addCredits 7 (Fin (- 5)) Bonus ''adjustment'' None None 1000 empty_db =
     (Inr (Fin (- 5)),
      empty_db\<lparr>creditBalances :=
          [\<lparr>cb_memberId = 7, balance = Fin (- 5), lifetimeEarned = Fin (- 5),
            lifetimeSpent = Fin 0, lastResetAt = 1000, cb_updatedAt = 1000\<rparr>],
        creditTransactions :=
          [\<lparr>tx_memberId = 7, tx_amount = Fin (- 5), balanceAfter = Fin (- 5),
            tx_type = Bonus, tx_description = ''adjustment'', tx_subscriptionId = None,
            tx_chatId = None, tx_usageRecordId = None, tx_metadata = None,
            tx_createdAt = 1000\<rparr>]\<rparr>)"
  by (simp add: addCredits_def get_or_create_balance_def query_first_def db_insert_def
      db_get_def empty_db_def)

text \<open>
  C6. The grant is \<open>monthlyCredits + Math.min(balance, cap)\<close> where the cap is
  \<open>maxRolloverCredits || monthlyCredits\<close>: a cap that is set to 0 counts as unset. With 10000
  monthly credits, a cap of 0 and a balance of 8000 the handler grants 18000, not
  \<open>10000 + Math.min(8000, 0) = 10000\<close>, and the balance becomes 26000.
\<close>

theorem allocateMonthlyCredits_zero_cap:
  "creditsToAdd (subscriptionPlans (rollover_db (Some (Fin 0)) (Fin 8000)) ! 0)
     (query_first (\<lambda>b. cb_memberId b = 7)
       (creditBalances (rollover_db (Some (Fin 0)) (Fin 8000))))
     = Fin 18000
   \<and> creditsToAdd (subscriptionPlans (rollover_db (Some (Fin 0)) (Fin 8000)) ! 0)
     (query_first (\<lambda>b. cb_memberId b = 7)
       (creditBalances (rollover_db (Some (Fin 0)) (Fin 8000))))
     \<noteq> js_add (Fin 10000) (js_min (Fin 8000) (Fin 0))
   \<and> js_add (Fin 10000) (js_min (Fin 8000) (Fin 0)) = Fin 10000
   \<and> balance_of 7 (snd (allocateMonthlyCredits 7 0 100 (rollover_db (Some (Fin 0)) (Fin 8000))))
     = Fin 26000"
  by (simp add: allocate_defs)

text \<open>
  C7. When the deduction throws, the handler of \<open>recordUsage\<close> patches the usage record it has
  inserted with \<open>creditDeductionFailed: true\<close> and throws the error again. \<open>recordUsage\<close> is a
  mutation, so the error discards what the handler has written: for member 7 of the sample
  database, whose balance is 150, and a cost of 99999 the call throws "Insufficient credits"
  and leaves the database as it was, without a usage record, while the handler had written
  the marked record.
\<close>

theorem recordUsage_rolls_back:
  "recordUsage 7 None Deployment (Fin 1) (Fin 99999) None None None None None
     (Some (JObj [(''source'', JStr ''chat'')])) 40 41 sample_db
     = (Inl (Error ''Insufficient credits''), sample_db)
   \<and> usageRecords (snd (recordUsage 7 None Deployment (Fin 1) (Fin 99999) None None None None
       None (Some (JObj [(''source'', JStr ''chat'')])) 40 41 sample_db)) = []
   \<and> usageRecords (snd (recordUsage_handler 7 None Deployment (Fin 1) (Fin 99999) None None
       None None None (Some (JObj [(''source'', JStr ''chat'')])) 40 41 sample_db)) =
      [\<lparr>ur_memberId = 7, ur_chatId = None, resourceType = Deployment, quantity = Fin 1,
        creditCost = Fin 99999, modelId = None, promptTokens = None, completionTokens = None,
        cachedPromptTokens = None, apiIntegrationId = None,
        ur_metadata = Some (JObj [(''source'', JStr ''chat''),
          (''creditDeductionFailed'', JBool True),
          (''error'', JStr ''Error: Insufficient credits'')]),
        timestamp = 40\<rparr>]"
  by (simp add: usage_defs)

text \<open>
  C8. When the plan exists, \<open>createSubscription\<close> sets the status of every subscription of the
  member that is active to cancelled (the documents stay, with a new \<open>updatedAt\<close>; every other
  subscription is untouched), then inserts the new subscription of the member as the last
  document, active or trialing, and returns its id. Afterwards at most one subscription of
  the member is active.
\<close>

theorem createSubscription_one_active:
  assumes "db_get (subscriptionPlans d) pid = Some plan"
  shows "fst (createSubscription m pid period ssid scid trialDays now d)
        = Inr (length (subscriptions d))
    \<and> length (subscriptions (snd (createSubscription m pid period ssid scid trialDays now d)))
        = Suc (length (subscriptions d))
    \<and> take (length (subscriptions d))
        (subscriptions (snd (createSubscription m pid period ssid scid trialDays now d)))
        = map (\<lambda>s. if sub_memberId s = m \<and> status s = Active
                     then s\<lparr>status := Cancelled, sub_updatedAt := now\<rparr> else s)
            (subscriptions d)
    \<and> sub_memberId (last (subscriptions
          (snd (createSubscription m pid period ssid scid trialDays now d)))) = m
    \<and> status (last (subscriptions
          (snd (createSubscription m pid period ssid scid trialDays now d))))
        = (if truthy_num trialDays \<and> now \<noteq> 0 then Trialing else Active)
    \<and> length (filter (\<lambda>s. sub_memberId s = m \<and> status s = Active)
          (subscriptions (snd (createSubscription m pid period ssid scid trialDays now d))))
        \<le> 1"
  by (simp add: createSubscription_found [OF assms] no_active_after_cancel)

text \<open>The theorem for member 7, who has one active subscription, taking a yearly one.\<close>

theorem createSubscription_one_active_witness:
  "map status (subscriptions (rollover_db (Some (Fin 5000)) (Fin 8000))) = [Active]
   \<and> fst (createSubscription 7 0 Yearly None None None 50 (rollover_db (Some (Fin 5000)) (Fin 8000)))
       = Inr 1
   \<and> map status (subscriptions (snd (createSubscription 7 0 Yearly None None None 50
         (rollover_db (Some (Fin 5000)) (Fin 8000))))) = [Cancelled, Active]
   \<and> length (filter (\<lambda>s. sub_memberId s = 7 \<and> status s = Active)
         (subscriptions (snd (createSubscription 7 0 Yearly None None None 50
           (rollover_db (Some (Fin 5000)) (Fin 8000)))))) \<le> 1"
proof -
  have "map status (subscriptions (snd (createSubscription 7 0 Yearly None None None 50
         (rollover_db (Some (Fin 5000)) (Fin 8000))))) = [Cancelled, Active]"
    by (simp add: subscription_defs)
  moreover have "map status (subscriptions (rollover_db (Some (Fin 5000)) (Fin 8000))) = [Active]"
    by (simp add: rollover_db_def empty_db_def)
  ultimately show ?thesis
    using createSubscription_one_active [OF rollover_db_entries(1) [of "Some (Fin 5000)" "Fin 8000"],
        of 7 Yearly None None None 50]
    by (simp add: rollover_db_def empty_db_def)
qed

text \<open>
  C9. For an existing subscription, \<open>cancelSubscription\<close> with \<open>immediate = false\<close> sets
  \<open>cancelAtPeriodEnd\<close> to true and leaves the status as it is; with \<open>immediate = true\<close> it sets
  the status to cancelled. The deferred cancellation writes no balance document, and any
  \<open>deductCredits\<close> call has the same outcome after it as before it.
\<close>

theorem cancelSubscription_effect:
  assumes "db_get (subscriptions d) sid = Some sub"
  shows "cancelSubscription sid False now d =
      (Inr (), d\<lparr>subscriptions :=
         (subscriptions d)[sid := sub\<lparr>cancelAtPeriodEnd := True, sub_updatedAt := now\<rparr>]\<rparr>)
    \<and> cancelAtPeriodEnd (subscriptions (snd (cancelSubscription sid False now d)) ! sid)
    \<and> status (subscriptions (snd (cancelSubscription sid False now d)) ! sid) = status sub
    \<and> cancelSubscription sid True now d =
      (Inr (), d\<lparr>subscriptions :=
         (subscriptions d)[sid := sub\<lparr>status := Cancelled, sub_updatedAt := now\<rparr>]\<rparr>)
    \<and> status (subscriptions (snd (cancelSubscription sid True now d)) ! sid) = Cancelled
    \<and> creditBalances (snd (cancelSubscription sid False now d)) = creditBalances d
    \<and> fst (deductCredits m a ds cid uid md now2 (snd (cancelSubscription sid False now d)))
        = fst (deductCredits m a ds cid uid md now2 d)"
proof -
  from assms have i: "sid < length (subscriptions d)" "subscriptions d ! sid = sub"
    by (auto simp: db_get_def split: if_splits)
  have f: "cancelSubscription sid False now d =
      (Inr (), d\<lparr>subscriptions :=
         (subscriptions d)[sid := sub\<lparr>cancelAtPeriodEnd := True, sub_updatedAt := now\<rparr>]\<rparr>)"
    using assms i by (simp add: cancelSubscription_def db_patch_def)
  have t: "cancelSubscription sid True now d =
      (Inr (), d\<lparr>subscriptions :=
         (subscriptions d)[sid := sub\<lparr>status := Cancelled, sub_updatedAt := now\<rparr>]\<rparr>)"
    using assms i by (simp add: cancelSubscription_def db_patch_def)
  have "fst (deductCredits m a ds cid uid md now2 (snd (cancelSubscription sid False now d)))
        = fst (deductCredits m a ds cid uid md now2 d)"
    by (rule deductCredits_reads_balances) (simp add: f)
  then show ?thesis using i by (simp add: f t)
qed

text \<open>The theorem for the active subscription of member 7, whose balance is 8000.\<close>

theorem cancelSubscription_effect_witness:
  "status (subscriptions (snd (cancelSubscription 0 False 60 (rollover_db (Some (Fin 5000)) (Fin 8000)))) ! 0)
     = Active
   \<and> cancelAtPeriodEnd
       (subscriptions (snd (cancelSubscription 0 False 60 (rollover_db (Some (Fin 5000)) (Fin 8000)))) ! 0)
   \<and> status (subscriptions (snd (cancelSubscription 0 True 60 (rollover_db (Some (Fin 5000)) (Fin 8000)))) ! 0)
     = Cancelled
   \<and> fst (deductCredits 7 (Fin 100) ''api_call usage'' None None None 61
        (snd (cancelSubscription 0 False 60 (rollover_db (Some (Fin 5000)) (Fin 8000))))) = Inr (Fin 7900)"
proof -
  have "fst (deductCredits 7 (Fin 100) ''api_call usage'' None None None 61
        (rollover_db (Some (Fin 5000)) (Fin 8000))) = Inr (Fin 7900)"
    by (simp add: subscription_defs)
  then show ?thesis
    using cancelSubscription_effect [OF rollover_db_entries(2) [of "Some (Fin 5000)" "Fin 8000"],
        of 60 7 "Fin 100" "''api_call usage''" None None None 61]
    by (simp add: subscription_defs)
qed

text \<open>
  C10. For an existing subscription, \<open>updateSubscriptionStatus\<close> without the
  \<open>cancelAtPeriodEnd\<close> argument writes \<open>cancelAtPeriodEnd = false\<close> whatever the field held. So
  after a deferred cancellation, which sets the flag, a status update that does not pass
  the flag clears it.
\<close>

theorem updateSubscriptionStatus_clears_flag:
  assumes "db_get (subscriptions d) sid = Some sub"
  shows "updateSubscriptionStatus sid st None now d =
      (Inr (), d\<lparr>subscriptions :=
         (subscriptions d)[sid := sub\<lparr>status := st, cancelAtPeriodEnd := False,
                                      sub_updatedAt := now\<rparr>]\<rparr>)
    \<and> \<not> cancelAtPeriodEnd (subscriptions (snd (updateSubscriptionStatus sid st None now d)) ! sid)
    \<and> cancelAtPeriodEnd (subscriptions (snd (cancelSubscription sid False now d)) ! sid)
    \<and> \<not> cancelAtPeriodEnd (subscriptions (snd (updateSubscriptionStatus sid st None now2
          (snd (cancelSubscription sid False now d)))) ! sid)"
proof -
  from assms have i: "sid < length (subscriptions d)" "subscriptions d ! sid = sub"
    by (auto simp: db_get_def split: if_splits)
  have f: "cancelSubscription sid False now d =
      (Inr (), d\<lparr>subscriptions :=
         (subscriptions d)[sid := sub\<lparr>cancelAtPeriodEnd := True, sub_updatedAt := now\<rparr>]\<rparr>)"
    using assms i by (simp add: cancelSubscription_def db_patch_def)
  show ?thesis
    using i by (simp add: f updateSubscriptionStatus_def db_patch_def)
qed

text \<open>The theorem for the subscription of member 7.\<close>

theorem updateSubscriptionStatus_clears_flag_witness:
  "cancelAtPeriodEnd
     (subscriptions (snd (cancelSubscription 0 False 60 (rollover_db (Some (Fin 5000)) (Fin 8000)))) ! 0)
   \<and> \<not> cancelAtPeriodEnd (subscriptions (snd (updateSubscriptionStatus 0 Active None 70
          (snd (cancelSubscription 0 False 60 (rollover_db (Some (Fin 5000)) (Fin 8000)))))) ! 0)
   \<and> status (subscriptions (snd (updateSubscriptionStatus 0 PastDue None 70
          (rollover_db (Some (Fin 5000)) (Fin 8000)))) ! 0) = PastDue"
proof -
  have "status (subscriptions (snd (updateSubscriptionStatus 0 PastDue None 70
          (rollover_db (Some (Fin 5000)) (Fin 8000)))) ! 0) = PastDue"
    by (simp add: subscription_defs)
  then show ?thesis
    using updateSubscriptionStatus_clears_flag [OF rollover_db_entries(2) [of "Some (Fin 5000)" "Fin 8000"],
        of Active 60 70]
    by (simp add: subscription_defs)
qed

end
